theory Spec2Isabelle
  imports Complex_Main "HOL-Library.Multiset"
begin

section \<open>The chat backend of app.py\<close>

text \<open>
  The program keeps two SQLite tables, \<^verbatim>\<open>messages\<close> and \<^verbatim>\<open>usage\<close>, and serves one
  conversation turn per \<^verbatim>\<open>POST /chat\<close>. The embedding passes the database explicitly.
  Everything outside the module is an input of the model: an exception raised inside an
  \<^verbatim>\<open>sqlite3\<close> call is given by a \<open>fault\<close> argument (\<open>None\<close>: the call succeeds,
  \<open>Some d\<close>: it raises an error whose \<^verbatim>\<open>str\<close> is \<open>d\<close>), and the outcome of
  \<^verbatim>\<open>openai.ChatCompletion.create\<close> is given by a function of the request. The
  \<^verbatim>\<open>timestamp\<close> columns are written by SQLite and read by no query; they are left out.
  A parameter that \<^verbatim>\<open>sqlite3\<close> refuses to bind (an \<^verbatim>\<open>int\<close> beyond 64 bits) is one of the
  exceptions a \<open>fault\<close> stands for.
\<close>

subsection \<open>Exceptions\<close>

datatype py_exception =
    SqliteError string
  | OpenAIError string
  | OverflowError string

text \<open>\<^verbatim>\<open>str(e)\<close>\<close>

fun str :: "py_exception \<Rightarrow> string" where
  "str (SqliteError d) = d"
| "str (OpenAIError d) = d"
| "str (OverflowError d) = d"

subsection \<open>The database\<close>

record message_row =
  msg_id :: int
  msg_role :: string
  msg_content :: string

record usage_row =
  usage_id :: int
  model :: string
  prompt_tokens :: int
  completion_tokens :: int
  total_tokens :: int
  cost :: rat

text \<open>The dicts \<^verbatim>\<open>{'role': ..., 'content': ...}\<close> handed to the API.\<close>

record message =
  role :: string
  content :: string

text \<open>
  What the process does to the outside, in order: the window reads it issues, the requests it
  sends to the completion API, and the lines it prints.
\<close>

datatype event =
    Window_Read int
  | Completion_Request "message list"
  | Printed string
  | Printed_Traceback

text \<open>
  A table is the list of its rows in physical order, which no query relies on.
\<close>

record world =
  messages :: "message_row list"
  usage :: "usage_row list"
  events :: "event list"

text \<open>
  \<^verbatim>\<open>init_db\<close> runs \<^verbatim>\<open>CREATE TABLE IF NOT EXISTS\<close> twice: on a new database file
  (\<open>None\<close>) both tables start empty, existing tables are left as they are.
\<close>

definition init_db :: "world option \<Rightarrow> world" where
  "init_db existing =
     (case existing of
        None \<Rightarrow> \<lparr>messages = [], usage = [], events = []\<rparr>
      | Some w \<Rightarrow> w)"

text \<open>
  \<^verbatim>\<open>INTEGER PRIMARY KEY AUTOINCREMENT\<close>: the new row gets an id one above the largest id
  of the table, 1 in an empty table (no row is ever deleted, so the largest id ever used is
  the largest id present).
\<close>

definition next_rowid :: "int list \<Rightarrow> int" where
  "next_rowid ids = foldr max ids 0 + 1"

text \<open>\<^verbatim>\<open>ORDER BY id DESC\<close> and \<^verbatim>\<open>LIMIT ?\<close> (a negative limit means no limit in SQLite).\<close>

definition order_by_id_desc :: "message_row list \<Rightarrow> message_row list" where
  "order_by_id_desc rows = sort_key (\<lambda>r. - msg_id r) rows"

definition sql_limit :: "int \<Rightarrow> 'a list \<Rightarrow> 'a list" where
  "sql_limit n xs = (if n < 0 then xs else take (nat n) xs)"

text \<open>The dict \<^verbatim>\<open>{'role': row[0], 'content': row[1]}\<close> built from a selected row.\<close>

definition row_dict :: "message_row \<Rightarrow> message" where
  "row_dict row = \<lparr>role = msg_role row, content = msg_content row\<rparr>"

definition get_conversation_messages ::
  "string option \<Rightarrow> int \<Rightarrow> world \<Rightarrow> (py_exception + message list) \<times> world" where
  "get_conversation_messages fault limit w =
     (let w' = w\<lparr>events := events w @ [Window_Read limit]\<rparr> in
      case fault of
        Some d \<Rightarrow> (Inl (SqliteError d), w')
      | None \<Rightarrow>
          (let rows = sql_limit limit (order_by_id_desc (messages w));
               rows = rev rows
           in (Inr (map row_dict rows), w')))"

text \<open>
  \<^verbatim>\<open>add_message_to_db\<close>: one \<^verbatim>\<open>INSERT\<close> and a commit. When a call of the connection
  raises, nothing has been committed: the exception leaves the function and the database is
  the one before the call.
\<close>

definition add_message_to_db ::
  "string option \<Rightarrow> string \<Rightarrow> string \<Rightarrow> world \<Rightarrow> (py_exception + unit) \<times> world" where
  "add_message_to_db fault r c w =
     (case fault of
        Some d \<Rightarrow> (Inl (SqliteError d), w)
      | None \<Rightarrow>
          (Inr (),
           w\<lparr>messages := messages w @
               [\<lparr>msg_id = next_rowid (map msg_id (messages w)),
                 msg_role = r, msg_content = c\<rparr>]\<rparr>))"

text \<open>A sequence of \<^verbatim>\<open>add_message_to_db\<close> calls, none of which meets a storage fault.\<close>

fun add_messages :: "(string \<times> string) list \<Rightarrow> world \<Rightarrow> world" where
  "add_messages [] w = w"
| "add_messages ((r, c) # rest) w = add_messages rest (snd (add_message_to_db None r c w))"

definition message_of :: "string \<times> string \<Rightarrow> message" where
  "message_of p = \<lparr>role = fst p, content = snd p\<rparr>"

subsection \<open>Python floats\<close>

text \<open>
  A \<^verbatim>\<open>float\<close> is the rational number it denotes. Every float operation is the exact
  operation followed by \<open>fl\<close>, rounding to the nearest number with a 53-bit significand,
  ties to the even significand (IEEE 754 binary64, round-to-nearest-even). The exponent is
  found by halving or doubling: \<open>ilog2 x\<close> is the \<open>e\<close> with \<open>2 ^ e \<le> x < 2 ^ (e + 1)\<close>.
  The exponent range of \<open>fl\<close> is unbounded; the one place where the program can leave the
  range of binary64, the conversion of a huge \<^verbatim>\<open>int\<close>, is checked in \<open>float_of_int\<close>, and
  the values computed from token counts stay inside it.
\<close>

function ilog2_up :: "rat \<Rightarrow> int" where
  "ilog2_up x = (if x < 2 then 0 else ilog2_up (x / 2) + 1)"
  by pat_completeness auto
termination
proof (relation "measure (\<lambda>x. nat \<lfloor>x\<rfloor>)")
  fix x :: rat
  assume "\<not> x < 2"
  then have two: "2 \<le> \<lfloor>x\<rfloor>"
    by (simp add: le_floor_iff)
  then have "(2::rat) \<le> of_int \<lfloor>x\<rfloor>"
    by simp
  moreover have "x < of_int \<lfloor>x\<rfloor> + 1"
    using floor_correct [of x] by simp
  ultimately have "x / 2 < of_int \<lfloor>x\<rfloor>"
    by linarith
  then have "\<lfloor>x / 2\<rfloor> < \<lfloor>x\<rfloor>"
    by (simp add: floor_less_iff)
  with two show "(x / 2, x) \<in> measure (\<lambda>x. nat \<lfloor>x\<rfloor>)"
    by simp
qed simp

function ilog2_down :: "rat \<Rightarrow> int" where
  "ilog2_down x = (if x \<le> 0 \<or> 1 \<le> x then 0 else ilog2_down (x * 2) - 1)"
  by pat_completeness auto
termination
proof (relation "measure (\<lambda>x. nat \<lfloor>1 / x\<rfloor>)")
  fix x :: rat
  define y where "y = 1 / x"
  assume "\<not> (x \<le> 0 \<or> 1 \<le> x)"
  then have "1 \<le> y"
    by (simp add: y_def)
  then have one: "1 \<le> \<lfloor>y\<rfloor>"
    by (simp add: le_floor_iff)
  then have "(1::rat) \<le> of_int \<lfloor>y\<rfloor>"
    by simp
  moreover have "y < of_int \<lfloor>y\<rfloor> + 1"
    using floor_correct [of y] by simp
  ultimately have "y / 2 < of_int \<lfloor>y\<rfloor>"
    by linarith
  then have less: "\<lfloor>y / 2\<rfloor> < \<lfloor>y\<rfloor>"
    by (simp add: floor_less_iff)
  have eq: "1 / (x * 2) = y / 2"
    by (simp add: y_def)
  have "nat \<lfloor>y / 2\<rfloor> < nat \<lfloor>y\<rfloor>"
    using less one by linarith
  then have "nat \<lfloor>1 / (x * 2)\<rfloor> < nat \<lfloor>1 / x\<rfloor>"
    by (simp only: eq y_def [symmetric])
  then show "(x * 2, x) \<in> measure (\<lambda>x. nat \<lfloor>1 / x\<rfloor>)"
    unfolding in_measure .
qed simp

declare ilog2_up.simps [simp del] ilog2_down.simps [simp del]

definition ilog2 :: "rat \<Rightarrow> int" where
  "ilog2 x = (if 1 \<le> x then ilog2_up x else ilog2_down x)"

definition pow2 :: "int \<Rightarrow> rat" where
  "pow2 e = (if 0 \<le> e then 2 ^ nat e else 1 / 2 ^ nat (- e))"

definition round_half_even :: "rat \<Rightarrow> int" where
  "round_half_even x =
     (let f = \<lfloor>x\<rfloor>; r = x - of_int f
      in if r < 1 / 2 then f
         else if 1 / 2 < r then f + 1
         else if even f then f else f + 1)"

definition fl :: "rat \<Rightarrow> rat" where
  "fl x =
     (if x = 0 then 0
      else (let e = ilog2 \<bar>x\<bar> - 52
            in of_int (round_half_even (x / pow2 e)) * pow2 e))"

definition fadd :: "rat \<Rightarrow> rat \<Rightarrow> rat" where
  "fadd x y = fl (x + y)"

definition fmul :: "rat \<Rightarrow> rat \<Rightarrow> rat" where
  "fmul x y = fl (x * y)"

definition fdiv :: "rat \<Rightarrow> rat \<Rightarrow> rat" where
  "fdiv x y = fl (x / y)"

text \<open>
  The conversion of an \<^verbatim>\<open>int\<close> operand of \<^verbatim>\<open>/\<close>: correctly rounded, and an
  \<^verbatim>\<open>OverflowError\<close> when the rounded value is beyond the largest binary64 number.
\<close>

definition float_of_int :: "int \<Rightarrow> py_exception + rat" where
  "float_of_int k =
     (if 2 ^ 1024 \<le> \<bar>fl (of_int k)\<bar>
      then Inl (OverflowError ''int too large to convert to float'')
      else Inr (fl (of_int k)))"

text \<open>
  \<^verbatim>\<open>round(x, ndigits)\<close> on a float: the exact value of \<open>x\<close> rounded half-even to
  \<open>ndigits\<close> decimal places, then read back as a float. On the int \<^verbatim>\<open>0\<close> it is \<^verbatim>\<open>0\<close>,
  which is also what this function gives.
\<close>

definition py_round :: "rat \<Rightarrow> nat \<Rightarrow> rat" where
  "py_round x ndigits = fl (of_int (round_half_even (x * 10 ^ ndigits)) / 10 ^ ndigits)"

text \<open>
  To bound the rounding error of a computed cost: \<open>a\<close> is the outcome of a computation
  on non-negative numbers whose exact result is \<open>x\<close>, after \<open>k\<close> roundings on any path.
\<close>

definition close_to :: "nat \<Rightarrow> rat \<Rightarrow> rat \<Rightarrow> bool" where
  "close_to k a x \<longleftrightarrow> 0 \<le> x \<and> \<bar>a - x\<bar> \<le> x * ((1 + 1 / 2 ^ 53) ^ k - 1)"

subsection \<open>The usage ledger\<close>

text \<open>The float literals \<^verbatim>\<open>0.03\<close> and \<^verbatim>\<open>0.06\<close>.\<close>

definition GPT4_PROMPT_COST_PER_1K :: rat where
  "GPT4_PROMPT_COST_PER_1K = fl (3 / 100)"

definition GPT4_COMPLETION_COST_PER_1K :: rat where
  "GPT4_COMPLETION_COST_PER_1K = fl (6 / 100)"

text \<open>
  \<^verbatim>\<open>record_usage\<close>: the total and the cost are computed first (the conversion of
  \<^verbatim>\<open>prompt_tokens\<close> before that of \<^verbatim>\<open>completion_tokens\<close>), then one row is inserted.
  The function reads no rate table: the two module constants price every model name.
\<close>

definition record_usage ::
  "string option \<Rightarrow> string \<Rightarrow> int \<Rightarrow> int \<Rightarrow> world \<Rightarrow> (py_exception + unit) \<times> world" where
  "record_usage fault m p c w =
     (let total = p + c in
      case float_of_int p of
        Inl e \<Rightarrow> (Inl e, w)
      | Inr fp \<Rightarrow>
          (case float_of_int c of
             Inl e \<Rightarrow> (Inl e, w)
           | Inr fc \<Rightarrow>
               (let c' = fadd (fmul (fdiv fp 1000) GPT4_PROMPT_COST_PER_1K)
                              (fmul (fdiv fc 1000) GPT4_COMPLETION_COST_PER_1K)
                in case fault of
                     Some d \<Rightarrow> (Inl (SqliteError d), w)
                   | None \<Rightarrow>
                       (Inr (),
                        w\<lparr>usage := usage w @
                            [\<lparr>usage_id = next_rowid (map usage_id (usage w)),
                              model = m, prompt_tokens = p, completion_tokens = c,
                              total_tokens = total, cost = c'\<rparr>]\<rparr>))))"

text \<open>
  SQL \<^verbatim>\<open>SUM\<close>: \<^verbatim>\<open>NULL\<close> (\<open>None\<close>) over no rows. The sum of a \<^verbatim>\<open>REAL\<close> column is
  accumulated in floats, here row after row from \<^verbatim>\<open>0.0\<close>; the theorems below read the
  sum of at most one row, where the way of accumulating makes no difference.
\<close>

definition sql_sum_int :: "int list \<Rightarrow> int option" where
  "sql_sum_int xs = (if xs = [] then None else Some (sum_list xs))"

definition sql_sum_real :: "rat list \<Rightarrow> rat option" where
  "sql_sum_real xs = (if xs = [] then None else Some (foldl fadd 0 xs))"

text \<open>\<^verbatim>\<open>v if v else 0\<close>\<close>

definition or_zero :: "'a::zero option \<Rightarrow> 'a" where
  "or_zero v = (case v of None \<Rightarrow> 0 | Some x \<Rightarrow> if x \<noteq> 0 then x else 0)"

record usage_summary =
  total_prompt_tokens :: int
  total_completion_tokens :: int
  total_cost :: rat

definition get_usage_summary :: "string option \<Rightarrow> world \<Rightarrow> py_exception + usage_summary" where
  "get_usage_summary fault w =
     (case fault of
        Some d \<Rightarrow> Inl (SqliteError d)
      | None \<Rightarrow>
          (let row0 = sql_sum_int (map prompt_tokens (usage w));
               row1 = sql_sum_int (map completion_tokens (usage w));
               row2 = sql_sum_real (map cost (usage w));
               total_prompt = or_zero row0;
               total_completion = or_zero row1;
               total = or_zero row2
           in Inr \<lparr>total_prompt_tokens = total_prompt,
                    total_completion_tokens = total_completion,
                    total_cost = py_round total 5\<rparr>))"

subsection \<open>One turn\<close>

text \<open>
  What \<^verbatim>\<open>generate_chat_completion\<close> reads from a response of the API:
  \<^verbatim>\<open>response['choices'][0]['message']['content']\<close> and the two counters of
  \<^verbatim>\<open>response['usage']\<close>. A call that raises, or a response without these entries, is an
  exception inside the \<^verbatim>\<open>try\<close> block.
\<close>

record completion_response =
  reply :: string
  resp_prompt_tokens :: int
  resp_completion_tokens :: int

text \<open>The \<^verbatim>\<open>except Exception\<close> branch: two prints, and the error text as the result.\<close>

definition completion_failed :: "py_exception \<Rightarrow> world \<Rightarrow> string \<times> world" where
  "completion_failed e w =
     (''Error: '' @ str e,
      w\<lparr>events := events w @
          [Printed (''Error generating chat completion: '' @ str e), Printed_Traceback]\<rparr>)"

definition generate_chat_completion ::
  "(message list \<Rightarrow> py_exception + completion_response) \<Rightarrow> string option \<Rightarrow>
   message list \<Rightarrow> world \<Rightarrow> string \<times> world" where
  "generate_chat_completion create fault msgs w =
     (let w1 = w\<lparr>events := events w @ [Completion_Request msgs]\<rparr> in
      case create msgs of
        Inl e \<Rightarrow> completion_failed e w1
      | Inr response \<Rightarrow>
          (let assistant_message = reply response in
           case record_usage fault ''gpt-4'' (resp_prompt_tokens response)
                  (resp_completion_tokens response) w1 of
             (Inl e, w2) \<Rightarrow> completion_failed e w2
           | (Inr u, w2) \<Rightarrow> (assistant_message, w2)))"

text \<open>
  The outside of one \<^verbatim>\<open>POST /chat\<close>: the fault of each database call of the turn, in the
  order of the calls, and the completion API.
\<close>

record turn_env =
  user_insert_fault :: "string option"
  window_fault :: "string option"
  completion :: "message list \<Rightarrow> py_exception + completion_response"
  usage_insert_fault :: "string option"
  reply_insert_fault :: "string option"

text \<open>
  \<^verbatim>\<open>chat\<close>: the JSON body is a dict of strings, the result is the \<^verbatim>\<open>response\<close> field of
  the JSON answer, or the exception that leaves the handler.
\<close>

definition chat ::
  "turn_env \<Rightarrow> (string \<rightharpoonup> string) \<Rightarrow> world \<Rightarrow> (py_exception + string) \<times> world" where
  "chat env data w =
     (let user_input = (case data ''user_input'' of None \<Rightarrow> '''' | Some v \<Rightarrow> v) in
      case add_message_to_db (user_insert_fault env) ''user'' user_input w of
        (Inl e, w1) \<Rightarrow> (Inl e, w1)
      | (Inr u, w1) \<Rightarrow>
          (case get_conversation_messages (window_fault env) 10 w1 of
             (Inl e, w2) \<Rightarrow> (Inl e, w2)
           | (Inr conversation_history, w2) \<Rightarrow>
               (case generate_chat_completion (completion env) (usage_insert_fault env)
                       conversation_history w2 of
                  (assistant_reply, w3) \<Rightarrow>
                    (case add_message_to_db (reply_insert_fault env) ''assistant''
                            assistant_reply w3 of
                       (Inl e, w4) \<Rightarrow> (Inl e, w4)
                     | (Inr u, w4) \<Rightarrow> (Inr assistant_reply, w4)))))"

text \<open>Two stand-ins for the completion API: one that always raises, one that always answers.\<close>

definition api_raises :: "string \<Rightarrow> message list \<Rightarrow> py_exception + completion_response" where
  "api_raises d msgs = Inl (OpenAIError d)"

definition api_answers ::
  "completion_response \<Rightarrow> message list \<Rightarrow> py_exception + completion_response" where
  "api_answers r msgs = Inr r"

definition no_faults ::
  "(message list \<Rightarrow> py_exception + completion_response) \<Rightarrow> turn_env" where
  "no_faults create =
     \<lparr>user_insert_fault = None, window_fault = None, completion = create,
      usage_insert_fault = None, reply_insert_fault = None\<rparr>"

text \<open>
  Two notions of the specification, to state what a window is: the rows oldest first (ids
  are handed out in increasing order), and the trailing \<open>n\<close> elements of a list.
\<close>

definition chronological :: "message_row list \<Rightarrow> message_row list" where
  "chronological rows = sort_key msg_id rows"

definition last_n :: "nat \<Rightarrow> 'a list \<Rightarrow> 'a list" where
  "last_n n xs = drop (length xs - n) xs"

text \<open>The invariant of the \<^verbatim>\<open>usage\<close> table.\<close>

definition usage_invariant :: "world \<Rightarrow> bool" where
  "usage_invariant w \<longleftrightarrow>
     (\<forall>r \<in> set (usage w). total_tokens r = prompt_tokens r + completion_tokens r)"

text \<open>The databases the module can produce from a new file.\<close>

inductive reachable :: "world \<Rightarrow> bool" where
  r_start: "reachable (init_db None)"
| r_append: "reachable w \<Longrightarrow> reachable (snd (add_message_to_db fault r c w))"
| r_window: "reachable w \<Longrightarrow> reachable (snd (get_conversation_messages fault n w))"
| r_record: "reachable w \<Longrightarrow> reachable (snd (record_usage fault m p c w))"
| r_turn: "reachable w \<Longrightarrow> reachable (snd (chat env data w))"

section \<open>Rounding to binary64\<close>

text \<open>
  The exponent search brackets its argument, \<open>fl\<close> moves a number by at most half a unit in
  the last place, and its result has a significand of at most 53 bits. The values of the
  literals the module uses follow by evaluation.
\<close>

lemma pow2_pos: "0 < pow2 e"
  by (simp add: pow2_def)

lemma pow2_succ: "pow2 (e + 1) = 2 * pow2 e"
proof (cases "0 \<le> e")
  case True
  then show ?thesis
    by (simp add: pow2_def nat_add_distrib)
next
  case False
  then have "nat (- e) = Suc (nat (- (e + 1)))"
    by simp
  with False show ?thesis
    by (simp add: pow2_def)
qed

lemma pow2_pred: "pow2 (e - 1) = pow2 e / 2"
  using pow2_succ [of "e - 1"] by simp

lemma pow2_diff: "pow2 (e - int n) = pow2 e / 2 ^ n"
proof (induction n)
  case 0
  show ?case by simp
next
  case (Suc n)
  have "pow2 (e - int (Suc n)) = pow2 (e - int n - 1)"
    by (simp add: algebra_simps)
  also have "\<dots> = pow2 (e - int n) / 2"
    by (rule pow2_pred)
  finally show ?case
    by (simp add: Suc)
qed

lemma ilog2_up_bracket:
  assumes "1 \<le> x"
  shows "pow2 (ilog2_up x) \<le> x \<and> x < pow2 (ilog2_up x + 1)"
  using assms
proof (induction x rule: ilog2_up.induct)
  case (1 x)
  show ?case
  proof (cases "x < 2")
    case True
    with 1 show ?thesis
      by (simp add: ilog2_up.simps [of x] pow2_def)
  next
    case False
    let ?e = "ilog2_up (x / 2)"
    from False have "1 \<le> x / 2"
      by simp
    with 1 False have ih: "pow2 ?e \<le> x / 2 \<and> x / 2 < pow2 (?e + 1)"
      by blast
    have e: "ilog2_up x = ?e + 1"
      using False by (simp add: ilog2_up.simps [of x])
    have "pow2 (?e + 1) = 2 * pow2 ?e" "pow2 (?e + 1 + 1) = 2 * pow2 (?e + 1)"
      by (rule pow2_succ)+
    with ih show ?thesis
      unfolding e by linarith
  qed
qed

lemma ilog2_down_bracket:
  assumes "0 < x" and "x < 1"
  shows "pow2 (ilog2_down x) \<le> x \<and> x < pow2 (ilog2_down x + 1)"
  using assms
proof (induction x rule: ilog2_down.induct)
  case (1 x)
  show ?case
  proof (cases "1 \<le> x * 2")
    case True
    then have "ilog2_down (x * 2) = 0"
      by (simp add: ilog2_down.simps [of "x * 2"])
    with 1 True show ?thesis
      by (simp add: ilog2_down.simps [of x] pow2_def)
  next
    case False
    let ?e = "ilog2_down (x * 2)"
    from 1 False have ih: "pow2 ?e \<le> x * 2 \<and> x * 2 < pow2 (?e + 1)"
      by simp
    have e: "ilog2_down x = ?e - 1"
      using 1 by (simp add: ilog2_down.simps [of x])
    have "pow2 (?e - 1) = pow2 ?e / 2" "pow2 (?e - 1 + 1) = 2 * pow2 (?e - 1)"
      "pow2 (?e + 1) = 2 * pow2 ?e"
      by (rule pow2_pred, (rule pow2_succ)+)
    with ih show ?thesis
      unfolding e by linarith
  qed
qed

lemma ilog2_bracket:
  assumes "0 < x"
  shows "pow2 (ilog2 x) \<le> x \<and> x < pow2 (ilog2 x + 1)"
  using assms ilog2_up_bracket [of x] ilog2_down_bracket [of x]
  by (simp add: ilog2_def)

lemma round_half_even_near: "\<bar>of_int (round_half_even x) - x\<bar> \<le> 1 / 2"
proof -
  have "of_int \<lfloor>x\<rfloor> \<le> x" "x < of_int \<lfloor>x\<rfloor> + 1"
    using floor_correct [of x] by simp_all
  then show ?thesis
    by (auto simp: round_half_even_def Let_def abs_le_iff)
qed

lemma fl_error:
  assumes "x \<noteq> 0"
  shows "\<bar>fl x - x\<bar> \<le> pow2 (ilog2 \<bar>x\<bar> - 53)" and "\<bar>fl x - x\<bar> \<le> \<bar>x\<bar> / 2 ^ 53"
proof -
  define q where "q = ilog2 \<bar>x\<bar> - 52"
  define m where "m = round_half_even (x / pow2 q)"
  have fl: "fl x = of_int m * pow2 q"
    using assms by (simp add: fl_def Let_def q_def m_def)
  have "\<bar>of_int m - x / pow2 q\<bar> \<le> 1 / 2"
    unfolding m_def by (rule round_half_even_near)
  then have "\<bar>of_int m - x / pow2 q\<bar> * pow2 q \<le> 1 / 2 * pow2 q"
    using pow2_pos [of q] by (simp add: mult_right_mono)
  moreover have "\<bar>of_int m - x / pow2 q\<bar> * pow2 q = \<bar>of_int m * pow2 q - x\<bar>"
  proof -
    have "\<bar>of_int m - x / pow2 q\<bar> * pow2 q = \<bar>(of_int m - x / pow2 q) * pow2 q\<bar>"
      using pow2_pos [of q] by (simp add: abs_mult)
    also have "(of_int m - x / pow2 q) * pow2 q = of_int m * pow2 q - x"
      using pow2_pos [of q] by (simp add: field_simps)
    finally show ?thesis .
  qed
  moreover have half: "1 / 2 * pow2 q = pow2 (ilog2 \<bar>x\<bar> - 53)"
    using pow2_pred [of q] by (simp add: q_def)
  ultimately show a: "\<bar>fl x - x\<bar> \<le> pow2 (ilog2 \<bar>x\<bar> - 53)"
    by (simp add: fl)
  have "pow2 (ilog2 \<bar>x\<bar>) \<le> \<bar>x\<bar>"
    using ilog2_bracket [of "\<bar>x\<bar>"] assms by simp
  moreover have "pow2 (ilog2 \<bar>x\<bar> - 53) = pow2 (ilog2 \<bar>x\<bar>) / 2 ^ 53"
    using pow2_diff [of "ilog2 \<bar>x\<bar>" 53] by simp
  ultimately have "pow2 (ilog2 \<bar>x\<bar> - 53) \<le> \<bar>x\<bar> / 2 ^ 53"
    by (simp add: divide_right_mono)
  with a show "\<bar>fl x - x\<bar> \<le> \<bar>x\<bar> / 2 ^ 53"
    by simp
qed

lemma fl_significand:
  assumes "x \<noteq> 0"
  shows "\<exists>m. fl x = of_int m * pow2 (ilog2 \<bar>x\<bar> - 52) \<and> 2 ^ 52 \<le> \<bar>m\<bar> \<and> \<bar>m\<bar> \<le> 2 ^ 53"
proof -
  define q where "q = ilog2 \<bar>x\<bar> - 52"
  define y where "y = x / pow2 q"
  define m where "m = round_half_even y"
  have fl: "fl x = of_int m * pow2 q"
    using assms by (simp add: fl_def Let_def q_def m_def y_def)
  have scale: "pow2 (ilog2 \<bar>x\<bar>) = 2 ^ 52 * pow2 q" "pow2 (ilog2 \<bar>x\<bar> + 1) = 2 ^ 53 * pow2 q"
    using pow2_diff [of "ilog2 \<bar>x\<bar>" 52] pow2_succ [of "ilog2 \<bar>x\<bar>"] by (simp_all add: q_def)
  have "pow2 (ilog2 \<bar>x\<bar>) \<le> \<bar>x\<bar>" "\<bar>x\<bar> < pow2 (ilog2 \<bar>x\<bar> + 1)"
    using ilog2_bracket [of "\<bar>x\<bar>"] assms by simp_all
  then have "2 ^ 52 * pow2 q \<le> \<bar>x\<bar>" "\<bar>x\<bar> < 2 ^ 53 * pow2 q"
    by (simp_all only: scale)
  then have y: "2 ^ 52 \<le> \<bar>y\<bar>" "\<bar>y\<bar> < 2 ^ 53"
    using pow2_pos [of q] by (simp_all add: y_def pos_le_divide_eq pos_divide_less_eq)
  have near: "\<bar>of_int m - y\<bar> \<le> 1 / 2"
    unfolding m_def by (rule round_half_even_near)
  have "(2 ^ 52 - 1 :: rat) < \<bar>of_int m\<bar>" "\<bar>of_int m :: rat\<bar> < 2 ^ 53 + 1"
    using y near by linarith+
  then have "(of_int (2 ^ 52 - 1) :: rat) < of_int \<bar>m\<bar>" "(of_int \<bar>m\<bar> :: rat) < of_int (2 ^ 53 + 1)"
    by simp_all
  then have "2 ^ 52 - 1 < \<bar>m\<bar>" "\<bar>m\<bar> < 2 ^ 53 + 1"
    by (simp_all only: of_int_less_iff)
  then have "2 ^ 52 \<le> \<bar>m\<bar> \<and> \<bar>m\<bar> \<le> 2 ^ 53"
    by simp
  with fl show ?thesis
    unfolding q_def by blast
qed

lemma floor_rat_numeral:
  "\<lfloor>numeral a / numeral b :: rat\<rfloor> = numeral a div numeral b"
  using floor_divide_of_int_eq [of "numeral a" "numeral b", where ?'a = rat] by simp

lemmas fl_eval =
  fl_def ilog2_def ilog2_up.simps ilog2_down.simps pow2_def round_half_even_def Let_def
  floor_rat_numeral

lemma fl_zero: "fl 0 = 0"
  by (simp add: fl_def)

lemma growth_ge_one: "(1::rat) \<le> (1 + 1 / 2 ^ 53) ^ k"
  by (rule one_le_power) simp

lemma growth_mono: "j \<le> k \<Longrightarrow> ((1::rat) + 1 / 2 ^ 53) ^ j \<le> (1 + 1 / 2 ^ 53) ^ k"
  by (rule power_increasing) simp_all

lemma close_to_exact: "0 \<le> x \<Longrightarrow> close_to 0 x x"
  by (simp add: close_to_def)

lemma close_to_mono:
  assumes "close_to j a x" and "j \<le> k"
  shows "close_to k a x"
proof -
  have "x * ((1 + 1 / 2 ^ 53) ^ j - 1) \<le> x * ((1 + 1 / 2 ^ 53) ^ k - 1)"
    using assms growth_mono [OF assms(2)] by (intro mult_left_mono) (simp_all add: close_to_def)
  with assms(1) show ?thesis
    by (simp add: close_to_def)
qed

lemma close_to_abs:
  assumes "close_to k a x"
  shows "\<bar>a\<bar> \<le> x * (1 + 1 / 2 ^ 53) ^ k"
proof -
  have "\<bar>a\<bar> \<le> x + \<bar>a - x\<bar>"
    using assms by (simp add: close_to_def abs_le_iff) linarith
  also have "\<dots> \<le> x + x * ((1 + 1 / 2 ^ 53) ^ k - 1)"
    using assms by (simp add: close_to_def)
  also have "\<dots> = x * (1 + 1 / 2 ^ 53) ^ k"
    by (simp add: algebra_simps)
  finally show ?thesis .
qed

lemma fl_relative: "\<bar>fl a - a\<bar> \<le> \<bar>a\<bar> / 2 ^ 53"
proof (cases "a = 0")
  case True
  then show ?thesis
    by (simp add: fl_zero)
next
  case False
  then show ?thesis
    by (rule fl_error(2))
qed

lemma close_to_fl:
  assumes "close_to k a x"
  shows "close_to (Suc k) (fl a) x"
proof -
  let ?g = "(1 + 1 / 2 ^ 53 :: rat) ^ k"
  have x: "0 \<le> x"
    using assms by (simp add: close_to_def)
  have "\<bar>fl a - x\<bar> \<le> \<bar>fl a - a\<bar> + \<bar>a - x\<bar>"
    by linarith
  also have "\<dots> \<le> \<bar>a\<bar> / 2 ^ 53 + x * (?g - 1)"
    using fl_relative [of a] assms by (simp add: close_to_def)
  also have "\<dots> \<le> x * ?g / 2 ^ 53 + x * (?g - 1)"
    using close_to_abs [OF assms] by (simp add: divide_right_mono)
  also have "\<dots> = x * ((1 + 1 / 2 ^ 53) ^ Suc k - 1)"
    by (simp add: algebra_simps)
  finally show ?thesis
    using x by (simp add: close_to_def)
qed

lemma close_to_mult:
  assumes "close_to j a x" and "close_to k b y"
  shows "close_to (j + k) (a * b) (x * y)"
proof -
  let ?g = "(1 + 1 / 2 ^ 53 :: rat) ^ j" and ?h = "(1 + 1 / 2 ^ 53 :: rat) ^ k"
  have x: "0 \<le> x" and y: "0 \<le> y"
    using assms by (simp_all add: close_to_def)
  have "a * b - x * y = a * (b - y) + (a - x) * y"
    by (simp add: algebra_simps)
  then have "\<bar>a * b - x * y\<bar> \<le> \<bar>a\<bar> * \<bar>b - y\<bar> + \<bar>a - x\<bar> * y"
    using y by (metis abs_mult abs_of_nonneg abs_triangle_ineq)
  also have "\<bar>a\<bar> * \<bar>b - y\<bar> \<le> (x * ?g) * (y * (?h - 1))"
    using close_to_abs [OF assms(1)] assms(2)
    by (intro mult_mono) (simp_all add: close_to_def)
  also have "\<bar>a - x\<bar> * y \<le> (x * (?g - 1)) * y"
    using assms(1) y by (intro mult_right_mono) (simp_all add: close_to_def)
  finally have "\<bar>a * b - x * y\<bar> \<le> (x * ?g) * (y * (?h - 1)) + (x * (?g - 1)) * y"
    by simp
  also have "\<dots> = x * y * ((1 + 1 / 2 ^ 53) ^ (j + k) - 1)"
    by (simp add: algebra_simps power_add)
  finally show ?thesis
    using x y by (simp add: close_to_def)
qed

lemma close_to_divide:
  assumes "close_to k a x" and "0 < d"
  shows "close_to k (a / d) (x / d)"
proof -
  have "\<bar>a / d - x / d\<bar> = \<bar>a - x\<bar> / d"
    using assms(2) by (simp add: diff_divide_distrib [symmetric] abs_divide del: diff_divide_distrib)
  also have "\<dots> \<le> x * ((1 + 1 / 2 ^ 53) ^ k - 1) / d"
    using assms by (simp add: close_to_def divide_right_mono)
  finally show ?thesis
    using assms by (simp add: close_to_def)
qed

lemma close_to_add:
  assumes "close_to k a x" and "close_to k b y"
  shows "close_to k (a + b) (x + y)"
proof -
  have "\<bar>a + b - (x + y)\<bar> \<le> \<bar>a - x\<bar> + \<bar>b - y\<bar>"
    by linarith
  also have "\<dots> \<le> x * ((1 + 1 / 2 ^ 53) ^ k - 1) + y * ((1 + 1 / 2 ^ 53) ^ k - 1)"
    using assms by (simp add: close_to_def add_mono)
  finally show ?thesis
    using assms by (simp add: close_to_def algebra_simps)
qed

lemma fl_tenth: "fl (1 / 10) = 3602879701896397 / 36028797018963968"
  by (simp add: fl_eval)

lemma fl_sum_not_exact: "fadd (fl (1 / 10)) (fl (2 / 10)) \<noteq> fl (3 / 10)"
  by (simp add: fadd_def fl_eval)

lemma fl_three_hundredths: "fl (3 / 100) = 1080863910568919 / 36028797018963968"
  by (simp add: fl_eval)

lemma fl_six_hundredths: "fl (6 / 100) = 1080863910568919 / 18014398509481984"
  by (simp add: fl_eval)

lemma fl_nine_hundredths: "fl (9 / 100) = 3242591731706757 / 36028797018963968"
  by (simp add: fl_eval)

lemma py_round_examples:
  "py_round (fl (2675 / 1000)) 2 = fl (267 / 100)"
  "py_round (fl (125 / 1000)) 2 = fl (12 / 100)"
  by (simp_all add: py_round_def fl_eval)

lemma py_round_zero: "py_round 0 n = 0"
  by (simp add: py_round_def round_half_even_def fl_zero)

lemma py_round_nine_hundredths: "py_round (fl (9 / 100)) 5 = fl (9 / 100)"
  unfolding fl_nine_hundredths by (simp add: py_round_def fl_eval)

lemma fadd_zero_nine_hundredths: "fadd 0 (fl (9 / 100)) = fl (9 / 100)"
  unfolding fl_nine_hundredths by (simp add: fadd_def fl_eval)

lemma float_of_int_1000: "float_of_int 1000 = Inr 1000"
  by (simp add: float_of_int_def fl_eval)

lemma float_of_int_small: "float_of_int 12 = Inr 12" "float_of_int 30 = Inr 30"
  by (simp_all add: float_of_int_def fl_eval)

lemma float_of_int_tokens: "float_of_int 9 = Inr 9" "float_of_int 3 = Inr 3"
  by (simp_all add: float_of_int_def fl_eval)

lemma cost_1000_1000:
  "fadd (fmul (fdiv 1000 1000) GPT4_PROMPT_COST_PER_1K)
        (fmul (fdiv 1000 1000) GPT4_COMPLETION_COST_PER_1K) = fl (9 / 100)"
proof -
  have one: "fdiv 1000 1000 = 1"
    by (simp add: fdiv_def fl_eval)
  have p: "fmul 1 GPT4_PROMPT_COST_PER_1K = 1080863910568919 / 36028797018963968"
    unfolding fmul_def GPT4_PROMPT_COST_PER_1K_def fl_three_hundredths
    by (simp add: fl_eval)
  have c: "fmul 1 GPT4_COMPLETION_COST_PER_1K = 1080863910568919 / 18014398509481984"
    unfolding fmul_def GPT4_COMPLETION_COST_PER_1K_def fl_six_hundredths
    by (simp add: fl_eval)
  have "fadd (1080863910568919 / 36028797018963968) (1080863910568919 / 18014398509481984) =
      3242591731706757 / 36028797018963968"
    by (simp add: fadd_def fl_eval)
  then show ?thesis
    by (simp only: one p c fl_nine_hundredths)
qed

section \<open>What each operation changes\<close>

lemma next_rowid_greater: "i \<in> set ids \<Longrightarrow> i < next_rowid ids"
  unfolding next_rowid_def by (induction ids) auto

lemma add_message_success:
  "add_message_to_db None r c w =
     (Inr (), w\<lparr>messages := messages w @
                 [\<lparr>msg_id = next_rowid (map msg_id (messages w)),
                   msg_role = r, msg_content = c\<rparr>]\<rparr>)"
  by (simp add: add_message_to_db_def)

lemma add_message_messages:
  "messages (snd (add_message_to_db f r c v)) = messages v \<or>
   (\<exists>x. messages (snd (add_message_to_db f r c v)) = messages v @ [x])"
  by (cases f) (simp_all add: add_message_to_db_def)

lemma add_message_usage: "usage (snd (add_message_to_db fault r c w)) = usage w"
  by (simp add: add_message_to_db_def split: option.splits)

lemma add_message_ids:
  assumes "sorted_wrt (<) (map msg_id (messages w))"
  shows "sorted_wrt (<) (map msg_id (messages (snd (add_message_to_db fault r c w))))"
  using assms
  by (cases fault) (auto simp: add_message_to_db_def sorted_wrt_append next_rowid_greater)

lemma window_other_tables:
  "messages (snd (get_conversation_messages f n v)) = messages v"
  "events (snd (get_conversation_messages f n v)) = events v @ [Window_Read n]"
  by (simp_all add: get_conversation_messages_def Let_def split: option.splits)

lemma window_usage: "usage (snd (get_conversation_messages fault n w)) = usage w"
  by (simp add: get_conversation_messages_def Let_def split: option.splits)

lemma record_usage_success:
  assumes "float_of_int p = Inr fp" and "float_of_int c = Inr fc"
  shows "record_usage None m p c w =
         (Inr (),
          w\<lparr>usage := usage w @
              [\<lparr>usage_id = next_rowid (map usage_id (usage w)), model = m,
                prompt_tokens = p, completion_tokens = c, total_tokens = p + c,
                cost = fadd (fmul (fdiv fp 1000) GPT4_PROMPT_COST_PER_1K)
                            (fmul (fdiv fc 1000) GPT4_COMPLETION_COST_PER_1K)\<rparr>]\<rparr>)"
  using assms by (simp add: record_usage_def)

lemma record_usage_failure:
  assumes "fst (record_usage fault m p c w) = Inl e"
  shows "snd (record_usage fault m p c w) = w"
  using assms by (auto simp: record_usage_def split: sum.splits option.splits)

lemma record_usage_row:
  assumes "fst (record_usage fault m p c w) = Inr u"
  shows "\<exists>r. usage (snd (record_usage fault m p c w)) = usage w @ [r] \<and>
             model r = m \<and> prompt_tokens r = p \<and> completion_tokens r = c \<and>
             total_tokens r = p + c"
  using assms by (auto simp: record_usage_def split: sum.splits option.splits)

lemma record_usage_other_tables:
  "messages (snd (record_usage fault m p c w)) = messages w"
  "events (snd (record_usage fault m p c w)) = events w"
  by (auto simp: record_usage_def split: sum.splits option.splits)


lemma record_usage_model_independent:
  "fst (record_usage fault m p c w) = fst (record_usage fault m' p c w)"
  "map cost (usage (snd (record_usage fault m p c w))) =
   map cost (usage (snd (record_usage fault m' p c w)))"
  by (auto simp: record_usage_def split: sum.splits option.splits)

lemma generate_messages:
  "messages (snd (generate_chat_completion create fault msgs w)) = messages w"
  by (simp add: generate_chat_completion_def completion_failed_def Let_def case_prod_beta
      record_usage_other_tables split: sum.splits)

lemma generate_events:
  "\<exists>rest. events (snd (generate_chat_completion create fault msgs w)) =
          events w @ Completion_Request msgs # rest"
  by (simp add: generate_chat_completion_def completion_failed_def Let_def case_prod_beta
      record_usage_other_tables split: sum.splits)

lemma generate_when_api_raises:
  assumes "create msgs = Inl e"
  shows "generate_chat_completion create fault msgs w =
         (''Error: '' @ str e,
          w\<lparr>events := events w @
              [Completion_Request msgs,
               Printed (''Error generating chat completion: '' @ str e), Printed_Traceback]\<rparr>)"
  using assms by (simp add: generate_chat_completion_def completion_failed_def)


lemma chat_world_cases:
  fixes env :: turn_env and data :: "string \<rightharpoonup> string" and w :: world
  defines "w1 \<equiv> snd (add_message_to_db (user_insert_fault env) ''user''
                       (case data ''user_input'' of None \<Rightarrow> '''' | Some v \<Rightarrow> v) w)"
  defines "w2 \<equiv> snd (get_conversation_messages (window_fault env) 10 w1)"
  defines "g \<equiv> generate_chat_completion (completion env) (usage_insert_fault env)
                  (projr (fst (get_conversation_messages (window_fault env) 10 w1))) w2"
  shows "snd (chat env data w) = w1 \<or> snd (chat env data w) = w2 \<or>
         snd (chat env data w) =
           snd (add_message_to_db (reply_insert_fault env) ''assistant'' (fst g) (snd g))"
  unfolding g_def w2_def w1_def
  by (simp add: chat_def Let_def case_prod_beta split: sum.splits)

lemma chat_no_storage_fault:
  fixes env :: turn_env and data :: "string \<rightharpoonup> string" and w :: world
  assumes "user_insert_fault env = None" and "window_fault env = None"
    and "reply_insert_fault env = None"
  defines "w1 \<equiv> snd (add_message_to_db None ''user''
                       (case data ''user_input'' of None \<Rightarrow> '''' | Some v \<Rightarrow> v) w)"
  defines "g \<equiv> generate_chat_completion (completion env) (usage_insert_fault env)
                  (projr (fst (get_conversation_messages None 10 w1)))
                  (snd (get_conversation_messages None 10 w1))"
  shows "chat env data w =
         (Inr (fst g), snd (add_message_to_db None ''assistant'' (fst g) (snd g)))"
  unfolding g_def w1_def
  by (simp add: chat_def assms(1-3) add_message_to_db_def get_conversation_messages_def Let_def
      split: prod.splits)

lemma chat_keeps_user_message:
  assumes "user_insert_fault env = None"
  shows "\<exists>more. messages (snd (chat env data w)) =
           messages w @
           \<lparr>msg_id = next_rowid (map msg_id (messages w)), msg_role = ''user'',
             msg_content = (case data ''user_input'' of None \<Rightarrow> '''' | Some v \<Rightarrow> v)\<rparr> # more"
proof -
  define w1 where "w1 = snd (add_message_to_db None ''user''
                       (case data ''user_input'' of None \<Rightarrow> '''' | Some v \<Rightarrow> v) w)"
  define w3 where "w3 = snd (generate_chat_completion (completion env) (usage_insert_fault env)
                  (projr (fst (get_conversation_messages (window_fault env) 10 w1)))
                  (snd (get_conversation_messages (window_fault env) 10 w1)))"
  define a where "a = fst (generate_chat_completion (completion env) (usage_insert_fault env)
                  (projr (fst (get_conversation_messages (window_fault env) 10 w1)))
                  (snd (get_conversation_messages (window_fault env) 10 w1)))"
  have m1: "messages w1 =
      messages w @
      [\<lparr>msg_id = next_rowid (map msg_id (messages w)), msg_role = ''user'',
        msg_content = (case data ''user_input'' of None \<Rightarrow> '''' | Some v \<Rightarrow> v)\<rparr>]"
    by (simp add: w1_def add_message_success)
  have m3: "messages w3 = messages w1"
    by (simp add: w3_def generate_messages window_other_tables)
  have "messages (snd (chat env data w)) = messages w1 \<or>
        messages (snd (chat env data w)) =
          messages (snd (add_message_to_db (reply_insert_fault env) ''assistant'' a w3))"
    unfolding w1_def w3_def a_def
    by (simp add: chat_def Let_def assms add_message_success case_prod_beta window_other_tables
        split: sum.splits)
  then show ?thesis
    using add_message_messages [of "reply_insert_fault env" "''assistant''" a w3]
    by (auto simp: m1 m3)
qed

lemma chat_ids:
  assumes "sorted_wrt (<) (map msg_id (messages w))"
  shows "sorted_wrt (<) (map msg_id (messages (snd (chat env data w))))"
proof -
  let ?w1 = "snd (add_message_to_db (user_insert_fault env) ''user''
                   (case data ''user_input'' of None \<Rightarrow> '''' | Some v \<Rightarrow> v) w)"
  let ?w2 = "snd (get_conversation_messages (window_fault env) 10 ?w1)"
  let ?g = "generate_chat_completion (completion env) (usage_insert_fault env)
              (projr (fst (get_conversation_messages (window_fault env) 10 ?w1))) ?w2"
  let ?w4 = "snd (add_message_to_db (reply_insert_fault env) ''assistant'' (fst ?g) (snd ?g))"
  have 1: "sorted_wrt (<) (map msg_id (messages ?w1))"
    using assms by (rule add_message_ids)
  then have 2: "sorted_wrt (<) (map msg_id (messages ?w2))"
    by (simp add: window_other_tables)
  then have "sorted_wrt (<) (map msg_id (messages (snd ?g)))"
    by (simp add: generate_messages)
  then have 4: "sorted_wrt (<) (map msg_id (messages ?w4))"
    by (rule add_message_ids)
  have "snd (chat env data w) = ?w1 \<or> snd (chat env data w) = ?w2 \<or>
        snd (chat env data w) = ?w4"
    by (simp add: chat_def Let_def case_prod_beta split: sum.splits)
  with 1 2 4 show ?thesis
    by metis
qed

section \<open>The message store\<close>

lemma sorted_neg_rev:
  fixes f :: "'a \<Rightarrow> int"
  shows "sorted_wrt (<) (map f xs) \<Longrightarrow> sorted (map (\<lambda>x. - f x) (rev xs))"
  by (induction xs) (auto simp: sorted_append)

lemma sorted_rev_neg:
  fixes f :: "'a \<Rightarrow> int"
  shows "sorted (map (\<lambda>x. - f x) ys) \<Longrightarrow> sorted (map f (rev ys))"
  by (induction ys) (auto simp: sorted_append)

lemma order_by_id_desc_chronological:
  assumes "distinct (map msg_id rows)"
  shows "rev (order_by_id_desc rows) = sort_key msg_id rows"
proof -
  have "sorted (map msg_id (rev (order_by_id_desc rows)))"
    unfolding order_by_id_desc_def by (rule sorted_rev_neg) simp
  moreover have "mset rows = mset (rev (order_by_id_desc rows))"
    by (simp add: order_by_id_desc_def)
  moreover have "inj_on msg_id (set rows)"
    using assms by (simp add: distinct_map)
  ultimately show ?thesis
    by (metis sort_key_inj_key_eq)
qed

lemma sort_key_strictly_sorted:
  assumes "sorted_wrt (<) (map msg_id rows)"
  shows "sort_key msg_id rows = rows"
  using assms by (simp add: sort_key_id_if_sorted strict_sorted_iff)

lemma window_rows:
  assumes "0 \<le> n" and "distinct (map msg_id (messages w))"
  shows "fst (get_conversation_messages None n w) =
         Inr (map row_dict (drop (length (messages w) - nat n) (sort_key msg_id (messages w))))"
proof -
  have "rev (take (nat n) (order_by_id_desc (messages w))) =
        drop (length (messages w) - nat n) (rev (order_by_id_desc (messages w)))"
    by (simp add: rev_take order_by_id_desc_def)
  then show ?thesis
    using assms by (simp add: get_conversation_messages_def sql_limit_def
        order_by_id_desc_chronological)
qed

lemma add_messages_table:
  assumes "sorted_wrt (<) (map msg_id (messages w))"
  shows "sorted_wrt (<) (map msg_id (messages (add_messages ms w))) \<and>
         map row_dict (messages (add_messages ms w)) =
           map row_dict (messages w) @ map message_of ms"
  using assms
proof (induction ms arbitrary: w)
  case Nil
  then show ?case by simp
next
  case (Cons m ms)
  obtain r c where m: "m = (r, c)" by (cases m)
  let ?w = "snd (add_message_to_db None r c w)"
  have "sorted_wrt (<) (map msg_id (messages ?w))"
    using Cons.prems
    by (auto simp: add_message_to_db_def sorted_wrt_append next_rowid_greater)
  from Cons.IH [OF this] show ?case
    by (simp add: m add_message_to_db_def row_dict_def message_of_def)
qed

lemma init_db_sorted: "sorted_wrt (<) (map msg_id (messages (init_db None)))"
  by (simp add: init_db_def)

lemma chronological_perm:
  assumes "mset rows' = mset rows" and "distinct (map msg_id rows)"
  shows "chronological rows' = chronological rows"
proof -
  have "set rows' = set rows"
    using assms(1) by (rule mset_eq_setD)
  then have "inj_on msg_id (set rows')"
    using assms(2) by (simp add: distinct_map)
  moreover have "mset rows' = mset (sort_key msg_id rows)"
    using assms(1) by simp
  moreover have "sorted (map msg_id (sort_key msg_id rows))"
    by simp
  ultimately show ?thesis
    unfolding chronological_def by (metis sort_key_inj_key_eq)
qed

lemma chronological_strict:
  assumes "distinct (map msg_id rows)"
  shows "sorted_wrt (<) (map msg_id (chronological rows))"
proof -
  have "distinct (map msg_id (chronological rows))"
    using assms unfolding chronological_def
    by (metis distinct_map distinct_sort set_sort)
  then show ?thesis
    by (simp add: strict_sorted_iff chronological_def)
qed

lemma last_n_older:
  assumes "sorted_wrt (<) (map f xs)" and "a \<in> set xs" and "a \<notin> set (last_n n xs)"
    and "b \<in> set (last_n n xs)"
  shows "f a < f b"
proof -
  have split: "xs = take (length xs - n) xs @ last_n n xs"
    by (simp add: last_n_def)
  then have "a \<in> set (take (length xs - n) xs)"
    using assms(2,3) by (metis Un_iff set_append)
  moreover have "sorted_wrt (<) (map f (take (length xs - n) xs) @ map f (last_n n xs))"
    using assms(1) split by (metis map_append)
  ultimately show ?thesis
    using assms(4) by (auto simp: sorted_wrt_append)
qed

lemma foldr_insort_least:
  fixes k :: "'a \<Rightarrow> int"
  assumes "\<forall>y \<in> set xs. k x < k y"
  shows "foldr (insort_key k) xs [x] = x # sort_key k xs"
  using assms by (induction xs) (auto simp: sort_key_def)

lemma order_by_id_desc_newest:
  assumes "\<forall>y \<in> set rows. msg_id y < msg_id x"
  shows "order_by_id_desc (rows @ [x]) = x # order_by_id_desc rows"
proof -
  have "sort_key (\<lambda>r. - msg_id r) (rows @ [x]) =
        foldr (insort_key (\<lambda>r. - msg_id r)) rows [x]"
    by (simp add: sort_key_def)
  also have "\<dots> = x # sort_key (\<lambda>r. - msg_id r) rows"
    using assms by (intro foldr_insort_least) simp
  finally show ?thesis
    by (simp add: order_by_id_desc_def)
qed

lemma window_one_after_append:
  "fst (get_conversation_messages None 1 (snd (add_message_to_db None r c w))) =
   Inr [\<lparr>role = r, content = c\<rparr>]"
proof -
  let ?x = "\<lparr>msg_id = next_rowid (map msg_id (messages w)), msg_role = r, msg_content = c\<rparr>"
  have "\<forall>y \<in> set (messages w). msg_id y < msg_id ?x"
    by (simp add: next_rowid_greater)
  then have "order_by_id_desc (messages w @ [?x]) = ?x # order_by_id_desc (messages w)"
    by (rule order_by_id_desc_newest)
  then show ?thesis
    by (simp add: add_message_success get_conversation_messages_def sql_limit_def row_dict_def)
qed

lemma window_after_append:
  "\<exists>older. fst (get_conversation_messages None 10 (snd (add_message_to_db None r c w))) =
           Inr (older @ [\<lparr>role = r, content = c\<rparr>])"
proof -
  let ?x = "\<lparr>msg_id = next_rowid (map msg_id (messages w)), msg_role = r, msg_content = c\<rparr>"
  have "\<forall>y \<in> set (messages w). msg_id y < msg_id ?x"
    by (simp add: next_rowid_greater)
  then have "order_by_id_desc (messages w @ [?x]) = ?x # order_by_id_desc (messages w)"
    by (rule order_by_id_desc_newest)
  moreover have "take (nat 10) (?x # ys) = ?x # take 9 ys" for ys
    by (simp add: take_Cons')
  ultimately show ?thesis
    by (simp add: add_message_success get_conversation_messages_def sql_limit_def row_dict_def)
qed

text \<open>
  Ids are distinct in every database the module can produce (they even increase in physical
  order), so the hypothesis of the next theorem holds wherever the program runs.
\<close>

lemma reachable_ids_increasing:
  "reachable w \<Longrightarrow> sorted_wrt (<) (map msg_id (messages w))"
proof (induction rule: reachable.induct)
  case r_start
  show ?case by (simp add: init_db_def)
next
  case (r_append w fault r c)
  from r_append.IH show ?case by (rule add_message_ids)
next
  case (r_window w fault n)
  then show ?case by (simp add: window_other_tables)
next
  case (r_record w fault m p c)
  then show ?case by (simp add: record_usage_other_tables)
next
  case (r_turn w env data)
  from r_turn.IH show ?case by (rule chat_ids)
qed

lemma reachable_ids_distinct: "reachable w \<Longrightarrow> distinct (map msg_id (messages w))"
  using reachable_ids_increasing [of w] by (simp add: strict_sorted_iff)

text \<open>
  Claim C4 (the window). For every positive \<open>n\<close> and every stored history (a table of
  \<open>L\<close> rows with distinct ids, in any physical order), \<^verbatim>\<open>get_conversation_messages(n)\<close>
  returns exactly \<open>min n L\<close> messages: the \<open>n\<close> most recent rows, oldest first, each row
  left out being older than each row returned; the result is the same for every physical
  order of the same rows. After 11 appends to the empty store, the window of size 10 is
  messages 2 to 11 in append order, without message 1.
\<close>

theorem window_chronological:
  assumes "0 < n" and "distinct (map msg_id (messages w))"
  shows "fst (get_conversation_messages None n w) =
           Inr (map row_dict (last_n (nat n) (chronological (messages w)))) \<and>
         length (last_n (nat n) (chronological (messages w))) =
           min (nat n) (length (messages w)) \<and>
         sorted_wrt (<) (map msg_id (last_n (nat n) (chronological (messages w)))) \<and>
         (\<forall>old \<in> set (messages w) - set (last_n (nat n) (chronological (messages w))).
            \<forall>new \<in> set (last_n (nat n) (chronological (messages w))).
              msg_id old < msg_id new) \<and>
         (mset (messages w') = mset (messages w) \<longrightarrow>
            fst (get_conversation_messages None n w') =
            fst (get_conversation_messages None n w)) \<and>
         (length ms = 11 \<longrightarrow>
            fst (get_conversation_messages None 10 (add_messages ms (init_db None))) =
            Inr (map message_of (tl ms)))"
proof (intro conjI impI ballI)
  let ?c = "chronological (messages w)"
  have len: "length ?c = length (messages w)"
    by (simp add: chronological_def)
  show win: "fst (get_conversation_messages None n w) = Inr (map row_dict (last_n (nat n) ?c))"
    using window_rows [of n w] assms by (simp add: last_n_def chronological_def)
  show "length (last_n (nat n) ?c) = min (nat n) (length (messages w))"
    by (simp add: last_n_def len)
  have strict: "sorted_wrt (<) (map msg_id ?c)"
    using assms(2) by (rule chronological_strict)
  then show "sorted_wrt (<) (map msg_id (last_n (nat n) ?c))"
    unfolding last_n_def drop_map [symmetric] by (rule sorted_wrt_drop)
  {
    fix old new
    assume "old \<in> set (messages w) - set (last_n (nat n) ?c)" and "new \<in> set (last_n (nat n) ?c)"
    moreover have "set ?c = set (messages w)"
      by (simp add: chronological_def)
    ultimately show "msg_id old < msg_id new"
      using last_n_older [OF strict, of old "nat n" new] by simp
  }
  {
    assume perm: "mset (messages w') = mset (messages w)"
    then have "mset (map msg_id (messages w')) = mset (map msg_id (messages w))"
      by (metis mset_map)
    then have d: "distinct (map msg_id (messages w'))"
      using assms(2) by (metis mset_eq_imp_distinct_iff)
    have "length (messages w') = length (messages w)"
      using perm by (rule mset_eq_length)
    moreover have "chronological (messages w') = ?c"
      using perm assms(2) by (rule chronological_perm)
    ultimately show "fst (get_conversation_messages None n w') =
        fst (get_conversation_messages None n w)"
      using window_rows [of n w'] window_rows [of n w] assms d
      by (simp add: chronological_def)
  }
  {
    assume eleven: "length ms = 11"
    let ?w = "add_messages ms (init_db None)"
    have tab: "sorted_wrt (<) (map msg_id (messages ?w))"
      "map row_dict (messages ?w) = map message_of ms"
      using add_messages_table [OF init_db_sorted, of ms] by (simp_all add: init_db_def)
    then have l: "length (messages ?w) = 11"
      using eleven by (metis length_map)
    have "distinct (map msg_id (messages ?w))"
      using tab(1) by (simp add: strict_sorted_iff)
    then have "fst (get_conversation_messages None 10 ?w) =
        Inr (map row_dict (drop (length (messages ?w) - nat 10) (sort_key msg_id (messages ?w))))"
      by (intro window_rows) simp_all
    also have "\<dots> = Inr (drop 1 (map row_dict (messages ?w)))"
      using tab(1) by (simp add: l sort_key_strictly_sorted drop_map)
    also have "\<dots> = Inr (map message_of (tl ms))"
      by (simp add: tab(2) drop_Suc map_tl)
    finally show "fst (get_conversation_messages None 10 ?w) = Inr (map message_of (tl ms))" .
  }
qed

theorem window_chronological_witness:
  "fst (get_conversation_messages None 2
          \<lparr>messages = [\<lparr>msg_id = 3, msg_role = ''user'', msg_content = ''c''\<rparr>,
                       \<lparr>msg_id = 1, msg_role = ''user'', msg_content = ''a''\<rparr>,
                       \<lparr>msg_id = 2, msg_role = ''assistant'', msg_content = ''b''\<rparr>],
           usage = [], events = []\<rparr>) =
     Inr [\<lparr>role = ''assistant'', content = ''b''\<rparr>, \<lparr>role = ''user'', content = ''c''\<rparr>] \<and>
   fst (get_conversation_messages None 2
          \<lparr>messages = [\<lparr>msg_id = 1, msg_role = ''user'', msg_content = ''a''\<rparr>,
                       \<lparr>msg_id = 2, msg_role = ''assistant'', msg_content = ''b''\<rparr>,
                       \<lparr>msg_id = 3, msg_role = ''user'', msg_content = ''c''\<rparr>],
           usage = [], events = []\<rparr>) =
     Inr [\<lparr>role = ''assistant'', content = ''b''\<rparr>, \<lparr>role = ''user'', content = ''c''\<rparr>] \<and>
   fst (get_conversation_messages None 10
          (add_messages [(''user'', ''m1''), (''assistant'', ''m2''), (''user'', ''m3''), (''assistant'', ''m4''), (''user'', ''m5''), (''assistant'', ''m6''), (''user'', ''m7''), (''assistant'', ''m8''), (''user'', ''m9''), (''assistant'', ''m10''), (''user'', ''m11'')]
             (init_db None))) =
     Inr [\<lparr>role = ''assistant'', content = ''m2''\<rparr>,
          \<lparr>role = ''user'', content = ''m3''\<rparr>,
          \<lparr>role = ''assistant'', content = ''m4''\<rparr>,
          \<lparr>role = ''user'', content = ''m5''\<rparr>,
          \<lparr>role = ''assistant'', content = ''m6''\<rparr>,
          \<lparr>role = ''user'', content = ''m7''\<rparr>,
          \<lparr>role = ''assistant'', content = ''m8''\<rparr>,
          \<lparr>role = ''user'', content = ''m9''\<rparr>,
          \<lparr>role = ''assistant'', content = ''m10''\<rparr>,
          \<lparr>role = ''user'', content = ''m11''\<rparr>]"
proof -
  let ?w = "\<lparr>messages = [\<lparr>msg_id = 3, msg_role = ''user'', msg_content = ''c''\<rparr>,
                       \<lparr>msg_id = 1, msg_role = ''user'', msg_content = ''a''\<rparr>,
                       \<lparr>msg_id = 2, msg_role = ''assistant'', msg_content = ''b''\<rparr>],
           usage = [], events = []\<rparr>"
  let ?w' = "\<lparr>messages = [\<lparr>msg_id = 1, msg_role = ''user'', msg_content = ''a''\<rparr>,
                       \<lparr>msg_id = 2, msg_role = ''assistant'', msg_content = ''b''\<rparr>,
                       \<lparr>msg_id = 3, msg_role = ''user'', msg_content = ''c''\<rparr>],
           usage = [], events = []\<rparr>"
  let ?ms = "[(''user'', ''m1''), (''assistant'', ''m2''), (''user'', ''m3''), (''assistant'', ''m4''), (''user'', ''m5''), (''assistant'', ''m6''), (''user'', ''m7''), (''assistant'', ''m8''), (''user'', ''m9''), (''assistant'', ''m10''), (''user'', ''m11'')]"
  have pos: "0 < (2::int)"
    by simp
  have key: "distinct (map msg_id (messages ?w))"
    by simp
  note t = window_chronological [OF pos key, of ?w' ?ms]
  have one: "fst (get_conversation_messages None 2 ?w) =
      Inr [\<lparr>role = ''assistant'', content = ''b''\<rparr>, \<lparr>role = ''user'', content = ''c''\<rparr>]"
    using t by (simp add: chronological_def last_n_def row_dict_def)
  have "mset (messages ?w') = mset (messages ?w)"
    by simp
  with t have two: "fst (get_conversation_messages None 2 ?w') =
      fst (get_conversation_messages None 2 ?w)"
    by blast
  have "length ?ms = 11"
    by simp
  with t have "fst (get_conversation_messages None 10 (add_messages ?ms (init_db None))) =
      Inr (map message_of (tl ?ms))"
    by blast
  then have three: "fst (get_conversation_messages None 10 (add_messages ?ms (init_db None))) =
      Inr [\<lparr>role = ''assistant'', content = ''m2''\<rparr>,
          \<lparr>role = ''user'', content = ''m3''\<rparr>,
          \<lparr>role = ''assistant'', content = ''m4''\<rparr>,
          \<lparr>role = ''user'', content = ''m5''\<rparr>,
          \<lparr>role = ''assistant'', content = ''m6''\<rparr>,
          \<lparr>role = ''user'', content = ''m7''\<rparr>,
          \<lparr>role = ''assistant'', content = ''m8''\<rparr>,
          \<lparr>role = ''user'', content = ''m9''\<rparr>,
          \<lparr>role = ''assistant'', content = ''m10''\<rparr>,
          \<lparr>role = ''user'', content = ''m11''\<rparr>]"
    by (simp add: message_of_def)
  from one two three show ?thesis
    by (simp only:)
qed

text \<open>
  Claim C5 (round trip of the message store). Starting from the empty store of a new
  database, after any finite sequence of \<^verbatim>\<open>add_message_to_db\<close> calls, the window of size
  \<open>L\<close> (the number of messages appended) is exactly the appended messages, in the order of
  the calls.
\<close>

theorem append_window_roundtrip:
  "fst (get_conversation_messages None (int (length ms)) (add_messages ms (init_db None))) =
   Inr (map message_of ms)"
proof -
  let ?w = "add_messages ms (init_db None)"
  have tab: "sorted_wrt (<) (map msg_id (messages ?w))"
    "map row_dict (messages ?w) = map message_of ms"
    using add_messages_table [OF init_db_sorted, of ms] by (simp_all add: init_db_def)
  then have len: "length (messages ?w) = length ms"
    by (metis length_map)
  have "distinct (map msg_id (messages ?w))"
    using tab(1) by (simp add: strict_sorted_iff)
  then have "fst (get_conversation_messages None (int (length ms)) ?w) =
      Inr (map row_dict (drop (length (messages ?w) - nat (int (length ms)))
             (sort_key msg_id (messages ?w))))"
    by (intro window_rows) simp_all
  then show ?thesis
    using tab by (simp add: len sort_key_strictly_sorted)
qed

section \<open>The usage ledger\<close>

lemma usage_invariant_cong:
  "usage v = usage w \<Longrightarrow> usage_invariant v = usage_invariant w"
  by (simp add: usage_invariant_def)

lemma record_usage_invariant:
  assumes "usage_invariant w"
  shows "usage_invariant (snd (record_usage fault m p c w))"
proof (cases "fst (record_usage fault m p c w)")
  case (Inl e)
  then show ?thesis
    using assms by (simp add: record_usage_failure)
next
  case (Inr u)
  from record_usage_row [OF this] assms show ?thesis
    by (auto simp: usage_invariant_def)
qed

lemma generate_invariant:
  assumes "usage_invariant w"
  shows "usage_invariant (snd (generate_chat_completion create fault msgs w))"
proof -
  let ?w1 = "w\<lparr>events := events w @ [Completion_Request msgs]\<rparr>"
  have "usage_invariant ?w1"
    using assms by (simp add: usage_invariant_def)
  then have "usage_invariant (snd (record_usage fault m p c ?w1))" for m p c
    by (rule record_usage_invariant)
  moreover have "usage_invariant (snd (completion_failed e v)) = usage_invariant v" for e v
    by (simp add: completion_failed_def usage_invariant_def)
  ultimately show ?thesis
    using \<open>usage_invariant ?w1\<close>
    by (simp add: generate_chat_completion_def Let_def case_prod_beta split: sum.splits)
qed

lemma chat_invariant:
  assumes "usage_invariant w"
  shows "usage_invariant (snd (chat env data w))"
proof -
  let ?w1 = "snd (add_message_to_db (user_insert_fault env) ''user''
                   (case data ''user_input'' of None \<Rightarrow> '''' | Some v \<Rightarrow> v) w)"
  let ?w2 = "snd (get_conversation_messages (window_fault env) 10 ?w1)"
  let ?g = "generate_chat_completion (completion env) (usage_insert_fault env)
              (projr (fst (get_conversation_messages (window_fault env) 10 ?w1))) ?w2"
  let ?w4 = "snd (add_message_to_db (reply_insert_fault env) ''assistant'' (fst ?g) (snd ?g))"
  have 1: "usage_invariant ?w1"
    using assms by (simp add: usage_invariant_cong [OF add_message_usage])
  then have 2: "usage_invariant ?w2"
    by (simp add: usage_invariant_cong [OF window_usage])
  then have "usage_invariant (snd ?g)"
    by (rule generate_invariant)
  then have 4: "usage_invariant ?w4"
    by (simp add: usage_invariant_cong [OF add_message_usage])
  from chat_world_cases [of env data w] 1 2 4 show ?thesis
    by metis
qed

lemma reachable_invariant: "reachable w \<Longrightarrow> usage_invariant w"
proof (induction rule: reachable.induct)
  case r_start
  show ?case by (simp add: usage_invariant_def init_db_def)
next
  case (r_append w fault r c)
  then show ?case by (simp add: usage_invariant_def add_message_usage)
next
  case (r_window w fault n)
  then show ?case by (simp add: usage_invariant_def window_usage)
next
  case (r_record w fault m p c)
  from r_record.IH show ?case by (rule record_usage_invariant)
next
  case (r_turn w env data)
  from r_turn.IH show ?case by (rule chat_invariant)
qed

text \<open>
  Claim C7 (invariant of the ledger). In every database the module can produce, each usage
  row has \<open>total_tokens = prompt_tokens + completion_tokens\<close>; a \<^verbatim>\<open>record_usage\<close> call
  keeps this for all token counts (in particular all non-negative ones), and when it succeeds
  the row it adds has the total \<open>p + c\<close>.
\<close>

theorem usage_total_tokens_invariant:
  assumes "reachable w"
  shows "usage_invariant w \<and>
         usage_invariant (snd (record_usage fault m p c w)) \<and>
         (fst (record_usage fault m p c w) = Inr () \<longrightarrow>
            (\<exists>r. usage (snd (record_usage fault m p c w)) = usage w @ [r] \<and>
                 prompt_tokens r = p \<and> completion_tokens r = c \<and> total_tokens r = p + c))"
proof (intro conjI impI)
  show inv: "usage_invariant w"
    using assms by (rule reachable_invariant)
  then show "usage_invariant (snd (record_usage fault m p c w))"
    by (rule record_usage_invariant)
  assume "fst (record_usage fault m p c w) = Inr ()"
  from record_usage_row [OF this]
  show "\<exists>r. usage (snd (record_usage fault m p c w)) = usage w @ [r] \<and>
            prompt_tokens r = p \<and> completion_tokens r = c \<and> total_tokens r = p + c"
    by blast
qed

theorem usage_total_tokens_invariant_witness:
  "reachable (init_db None) \<and>
   usage_invariant (snd (record_usage None ''gpt-4'' 12 30 (init_db None))) \<and>
   map total_tokens (usage (snd (record_usage None ''gpt-4'' 12 30 (init_db None)))) = [42]"
proof -
  have r: "reachable (init_db None)"
    by (rule reachable.r_start)
  have ok: "fst (record_usage None ''gpt-4'' 12 30 (init_db None)) = Inr ()"
    by (simp add: record_usage_success [OF float_of_int_small])
  from usage_total_tokens_invariant [OF r, of None "''gpt-4''" 12 30] ok r
  show ?thesis
    by (auto simp: init_db_def)
qed

lemma float_of_int_value: "float_of_int k = Inr f \<Longrightarrow> f = fl (of_int k)"
  by (simp add: float_of_int_def split: if_splits)

lemma cost_accuracy:
  assumes "0 \<le> p" and "0 \<le> c"
    and "float_of_int p = Inr fp" and "float_of_int c = Inr fc"
  shows "\<bar>fadd (fmul (fdiv fp 1000) GPT4_PROMPT_COST_PER_1K)
              (fmul (fdiv fc 1000) GPT4_COMPLETION_COST_PER_1K) -
          (of_int p / 1000 * (3 / 100) + of_int c / 1000 * (6 / 100))\<bar>
         \<le> (of_int p / 1000 * (3 / 100) + of_int c / 1000 * (6 / 100)) / 2 ^ 50"
proof -
  have part: "close_to 4 (fmul (fdiv (fl (of_int k)) 1000) (fl r)) (of_int k / 1000 * r)"
    if "0 \<le> k" and "0 \<le> r" for k :: int and r :: rat
  proof -
    have "close_to 1 (fl (of_int k)) (of_int k)"
      using close_to_fl [OF close_to_exact, of "of_int k"] that by simp
    then have "close_to 1 (fl (of_int k) / 1000) (of_int k / 1000)"
      by (rule close_to_divide) simp
    then have "close_to (Suc 1) (fdiv (fl (of_int k)) 1000) (of_int k / 1000)"
      unfolding fdiv_def by (rule close_to_fl)
    then have "close_to 2 (fdiv (fl (of_int k)) 1000) (of_int k / 1000)"
      by (simp add: numeral_2_eq_2)
    moreover have "close_to 1 (fl r) r"
      using close_to_fl [OF close_to_exact, of r] that by simp
    ultimately have "close_to (2 + 1) (fdiv (fl (of_int k)) 1000 * fl r) (of_int k / 1000 * r)"
      by (rule close_to_mult)
    then have "close_to (Suc (2 + 1)) (fmul (fdiv (fl (of_int k)) 1000) (fl r))
        (of_int k / 1000 * r)"
      unfolding fmul_def by (rule close_to_fl)
    then show ?thesis
      by simp
  qed
  let ?x = "of_int p / 1000 * (3 / 100) + of_int c / 1000 * (6 / 100) :: rat"
  have "close_to 4 (fmul (fdiv fp 1000) GPT4_PROMPT_COST_PER_1K +
                    fmul (fdiv fc 1000) GPT4_COMPLETION_COST_PER_1K) ?x"
    unfolding GPT4_PROMPT_COST_PER_1K_def GPT4_COMPLETION_COST_PER_1K_def
      float_of_int_value [OF assms(3)] float_of_int_value [OF assms(4)]
    using assms(1,2) by (intro close_to_add part) simp_all
  then have "close_to (Suc 4) (fadd (fmul (fdiv fp 1000) GPT4_PROMPT_COST_PER_1K)
                    (fmul (fdiv fc 1000) GPT4_COMPLETION_COST_PER_1K)) ?x"
    unfolding fadd_def by (rule close_to_fl)
  then have x: "0 \<le> ?x" and
    near: "\<bar>fadd (fmul (fdiv fp 1000) GPT4_PROMPT_COST_PER_1K)
              (fmul (fdiv fc 1000) GPT4_COMPLETION_COST_PER_1K) - ?x\<bar>
           \<le> ?x * ((1 + 1 / 2 ^ 53) ^ Suc 4 - 1)"
    unfolding close_to_def by blast+
  have "((1::rat) + 1 / 2 ^ 53) ^ Suc 4 - 1 \<le> 1 / 2 ^ 50"
    by (simp add: power_divide)
  then have "?x * ((1 + 1 / 2 ^ 53) ^ Suc 4 - 1) \<le> ?x * (1 / 2 ^ 50)"
    using x by (rule mult_left_mono)
  with near show ?thesis
    by simp
qed

text \<open>
  Claim C6 (cost). \<^verbatim>\<open>record_usage\<close> stores as cost the float value of
  \<^verbatim>\<open>prompt_tokens / 1000.0 * 0.03 + completion_tokens / 1000.0 * 0.06\<close>, whatever the
  model name; for non-negative token counts it differs from the exact value of
  \<open>p / 1000 * 0.03 + c / 1000 * 0.06\<close> by at most that value times \<open>2 ^ -50\<close>. For
  \<^verbatim>\<open>record_usage("gpt-4", 1000, 1000)\<close> on an empty ledger the stored cost is the float
  \<^verbatim>\<open>0.09\<close>, that is \<open>fl (9 / 100)\<close>, and \<^verbatim>\<open>total_cost\<close> of the summary taken afterwards is
  that same float.
\<close>

theorem record_usage_cost:
  "(float_of_int p = Inr fp \<and> float_of_int c = Inr fc \<longrightarrow>
      record_usage None m p c w =
        (Inr (),
         w\<lparr>usage := usage w @
             [\<lparr>usage_id = next_rowid (map usage_id (usage w)), model = m,
               prompt_tokens = p, completion_tokens = c, total_tokens = p + c,
               cost = fadd (fmul (fdiv fp 1000) GPT4_PROMPT_COST_PER_1K)
                           (fmul (fdiv fc 1000) GPT4_COMPLETION_COST_PER_1K)\<rparr>]\<rparr>)) \<and>
   GPT4_PROMPT_COST_PER_1K = fl (3 / 100) \<and>
   GPT4_COMPLETION_COST_PER_1K = fl (6 / 100) \<and>
   (0 \<le> p \<and> 0 \<le> c \<and> float_of_int p = Inr fp \<and> float_of_int c = Inr fc \<longrightarrow>
      \<bar>fadd (fmul (fdiv fp 1000) GPT4_PROMPT_COST_PER_1K)
            (fmul (fdiv fc 1000) GPT4_COMPLETION_COST_PER_1K) -
        (of_int p / 1000 * (3 / 100) + of_int c / 1000 * (6 / 100))\<bar>
      \<le> (of_int p / 1000 * (3 / 100) + of_int c / 1000 * (6 / 100)) / 2 ^ 50) \<and>
   record_usage None ''gpt-4'' 1000 1000 (init_db None) =
     (Inr (),
      \<lparr>messages = [],
       usage = [\<lparr>usage_id = 1, model = ''gpt-4'', prompt_tokens = 1000,
                  completion_tokens = 1000, total_tokens = 2000, cost = fl (9 / 100)\<rparr>],
       events = []\<rparr>) \<and>
   get_usage_summary None (snd (record_usage None ''gpt-4'' 1000 1000 (init_db None))) =
     Inr \<lparr>total_prompt_tokens = 1000, total_completion_tokens = 1000,
          total_cost = fl (9 / 100)\<rparr>"
proof (intro conjI impI)
  show "GPT4_PROMPT_COST_PER_1K = fl (3 / 100)"
    by (rule GPT4_PROMPT_COST_PER_1K_def)
  show "GPT4_COMPLETION_COST_PER_1K = fl (6 / 100)"
    by (rule GPT4_COMPLETION_COST_PER_1K_def)
  show rec: "record_usage None ''gpt-4'' 1000 1000 (init_db None) =
     (Inr (),
      \<lparr>messages = [],
       usage = [\<lparr>usage_id = 1, model = ''gpt-4'', prompt_tokens = 1000,
                  completion_tokens = 1000, total_tokens = 2000, cost = fl (9 / 100)\<rparr>],
       events = []\<rparr>)"
    by (simp add: record_usage_success [OF float_of_int_1000 float_of_int_1000]
        cost_1000_1000 init_db_def next_rowid_def)
  have nz: "fl (9 / 100) \<noteq> 0"
    by (simp add: fl_nine_hundredths)
  show "get_usage_summary None (snd (record_usage None ''gpt-4'' 1000 1000 (init_db None))) =
     Inr \<lparr>total_prompt_tokens = 1000, total_completion_tokens = 1000,
          total_cost = fl (9 / 100)\<rparr>"
    unfolding rec
    by (simp add: get_usage_summary_def sql_sum_int_def sql_sum_real_def or_zero_def nz
        fadd_zero_nine_hundredths py_round_nine_hundredths)
next
  assume "float_of_int p = Inr fp \<and> float_of_int c = Inr fc"
  then show "record_usage None m p c w =
        (Inr (),
         w\<lparr>usage := usage w @
             [\<lparr>usage_id = next_rowid (map usage_id (usage w)), model = m,
               prompt_tokens = p, completion_tokens = c, total_tokens = p + c,
               cost = fadd (fmul (fdiv fp 1000) GPT4_PROMPT_COST_PER_1K)
                           (fmul (fdiv fc 1000) GPT4_COMPLETION_COST_PER_1K)\<rparr>]\<rparr>)"
    by (simp add: record_usage_success)
next
  assume "0 \<le> p \<and> 0 \<le> c \<and> float_of_int p = Inr fp \<and> float_of_int c = Inr fc"
  then show "\<bar>fadd (fmul (fdiv fp 1000) GPT4_PROMPT_COST_PER_1K)
            (fmul (fdiv fc 1000) GPT4_COMPLETION_COST_PER_1K) -
        (of_int p / 1000 * (3 / 100) + of_int c / 1000 * (6 / 100))\<bar>
      \<le> (of_int p / 1000 * (3 / 100) + of_int c / 1000 * (6 / 100)) / 2 ^ 50"
    by (intro cost_accuracy) simp_all
qed

theorem record_usage_cost_witness:
  "float_of_int 12 = Inr 12 \<and> float_of_int 30 = Inr 30 \<and>
   record_usage None ''gpt-4'' 12 30 (init_db None) =
     (Inr (),
      \<lparr>messages = [],
       usage = [\<lparr>usage_id = 1, model = ''gpt-4'', prompt_tokens = 12,
                  completion_tokens = 30, total_tokens = 42,
                  cost = fadd (fmul (fdiv 12 1000) GPT4_PROMPT_COST_PER_1K)
                              (fmul (fdiv 30 1000) GPT4_COMPLETION_COST_PER_1K)\<rparr>],
       events = []\<rparr>) \<and>
   \<bar>fadd (fmul (fdiv 12 1000) GPT4_PROMPT_COST_PER_1K)
         (fmul (fdiv 30 1000) GPT4_COMPLETION_COST_PER_1K) - 27 / 12500\<bar> \<le> 27 / 12500 / 2 ^ 50"
proof -
  note t = record_usage_cost [of 12 12 30 30 "''gpt-4''" "init_db None"]
  have a: "float_of_int 12 = Inr 12 \<and> float_of_int 30 = Inr 30"
    by (simp add: float_of_int_small)
  with t have "record_usage None ''gpt-4'' 12 30 (init_db None) =
     (Inr (),
      init_db None\<lparr>usage := usage (init_db None) @
         [\<lparr>usage_id = next_rowid (map usage_id (usage (init_db None))), model = ''gpt-4'',
           prompt_tokens = 12, completion_tokens = 30, total_tokens = 12 + 30,
           cost = fadd (fmul (fdiv 12 1000) GPT4_PROMPT_COST_PER_1K)
                       (fmul (fdiv 30 1000) GPT4_COMPLETION_COST_PER_1K)\<rparr>]\<rparr>)"
    by blast
  then have b: "record_usage None ''gpt-4'' 12 30 (init_db None) =
     (Inr (),
      \<lparr>messages = [],
       usage = [\<lparr>usage_id = 1, model = ''gpt-4'', prompt_tokens = 12,
                  completion_tokens = 30, total_tokens = 42,
                  cost = fadd (fmul (fdiv 12 1000) GPT4_PROMPT_COST_PER_1K)
                              (fmul (fdiv 30 1000) GPT4_COMPLETION_COST_PER_1K)\<rparr>],
       events = []\<rparr>)"
    by (simp add: init_db_def next_rowid_def)
  from t a have "\<bar>fadd (fmul (fdiv 12 1000) GPT4_PROMPT_COST_PER_1K)
         (fmul (fdiv 30 1000) GPT4_COMPLETION_COST_PER_1K) -
        (of_int 12 / 1000 * (3 / 100) + of_int 30 / 1000 * (6 / 100))\<bar>
      \<le> (of_int 12 / 1000 * (3 / 100) + of_int 30 / 1000 * (6 / 100)) / 2 ^ 50"
    by simp
  then have c: "\<bar>fadd (fmul (fdiv 12 1000) GPT4_PROMPT_COST_PER_1K)
         (fmul (fdiv 30 1000) GPT4_COMPLETION_COST_PER_1K) - 27 / 12500\<bar> \<le> 27 / 12500 / 2 ^ 50"
    by simp
  from a b c show ?thesis
    by (simp only:)
qed

text \<open>
  Claim C8 (empty summary). On a ledger without rows \<^verbatim>\<open>get_usage_summary\<close> returns 0 in
  all three fields.
\<close>

theorem summary_of_empty_ledger:
  assumes "usage w = []"
  shows "get_usage_summary None w =
         Inr \<lparr>total_prompt_tokens = 0, total_completion_tokens = 0, total_cost = 0\<rparr>"
  using assms
  by (simp add: get_usage_summary_def sql_sum_int_def sql_sum_real_def or_zero_def
      py_round_zero)

theorem summary_of_empty_ledger_witness:
  "usage (init_db None) = [] \<and>
   get_usage_summary None (init_db None) =
     Inr \<lparr>total_prompt_tokens = 0, total_completion_tokens = 0, total_cost = 0\<rparr>"
proof -
  have e: "usage (init_db None) = []"
    by (simp add: init_db_def)
  from e summary_of_empty_ledger [OF e] show ?thesis
    by simp
qed

text \<open>
  Claim C2 as stated fails: a call for a model the module has no rate for does not fail.
  \<^verbatim>\<open>record_usage("gpt-3.5-turbo", 1000, 1000)\<close> on the empty ledger succeeds, stores a row
  priced at the GPT-4 rates, and the summary afterwards differs from the summary before.
\<close>

theorem unknown_model_is_recorded:
  "record_usage None ''gpt-3.5-turbo'' 1000 1000 (init_db None) =
     (Inr (),
      \<lparr>messages = [],
       usage = [\<lparr>usage_id = 1, model = ''gpt-3.5-turbo'', prompt_tokens = 1000,
                  completion_tokens = 1000, total_tokens = 2000, cost = fl (9 / 100)\<rparr>],
       events = []\<rparr>) \<and>
   get_usage_summary None (init_db None) =
     Inr \<lparr>total_prompt_tokens = 0, total_completion_tokens = 0, total_cost = 0\<rparr> \<and>
   get_usage_summary None (snd (record_usage None ''gpt-3.5-turbo'' 1000 1000 (init_db None))) =
     Inr \<lparr>total_prompt_tokens = 1000, total_completion_tokens = 1000,
          total_cost = fl (9 / 100)\<rparr>"
proof -
  have rec: "record_usage None ''gpt-3.5-turbo'' 1000 1000 (init_db None) =
     (Inr (),
      \<lparr>messages = [],
       usage = [\<lparr>usage_id = 1, model = ''gpt-3.5-turbo'', prompt_tokens = 1000,
                  completion_tokens = 1000, total_tokens = 2000, cost = fl (9 / 100)\<rparr>],
       events = []\<rparr>)"
    by (simp add: record_usage_success [OF float_of_int_1000 float_of_int_1000]
        cost_1000_1000 init_db_def next_rowid_def)
  have nz: "fl (9 / 100) \<noteq> 0"
    by (simp add: fl_nine_hundredths)
  have after: "get_usage_summary None
       (snd (record_usage None ''gpt-3.5-turbo'' 1000 1000 (init_db None))) =
     Inr \<lparr>total_prompt_tokens = 1000, total_completion_tokens = 1000,
          total_cost = fl (9 / 100)\<rparr>"
    unfolding rec
    by (simp add: get_usage_summary_def sql_sum_int_def sql_sum_real_def or_zero_def nz
        fadd_zero_nine_hundredths py_round_nine_hundredths)
  have before: "get_usage_summary None (init_db None) =
     Inr \<lparr>total_prompt_tokens = 0, total_completion_tokens = 0, total_cost = 0\<rparr>"
    by (simp add: get_usage_summary_def sql_sum_int_def sql_sum_real_def or_zero_def
        py_round_zero init_db_def)
  from rec before after show ?thesis
    by (simp only:)
qed

text \<open>
  Claim C2, amended. \<^verbatim>\<open>record_usage\<close> consults no rate table and has no unknown-model
  error: for every model name it fails exactly when the same call for \<^verbatim>\<open>gpt-4\<close> fails,
  and it stores the same cost; when it succeeds it adds one row under the given name. When
  it fails (a storage fault, or a token count too large for a float), no row is persisted,
  and the summary after the failed call is the summary before it.
\<close>

theorem record_usage_any_model:
  "fst (record_usage fault m p c w) = fst (record_usage fault ''gpt-4'' p c w) \<and>
   map cost (usage (snd (record_usage fault m p c w))) =
     map cost (usage (snd (record_usage fault ''gpt-4'' p c w))) \<and>
   (fst (record_usage fault m p c w) = Inr () \<longrightarrow>
      map model (usage (snd (record_usage fault m p c w))) = map model (usage w) @ [m]) \<and>
   (fst (record_usage fault m p c w) = Inl e \<longrightarrow>
      (fault = Some (str e) \<or> float_of_int p = Inl e \<or> float_of_int c = Inl e) \<and>
      snd (record_usage fault m p c w) = w \<and>
      get_usage_summary f (snd (record_usage fault m p c w)) = get_usage_summary f w)"
proof (intro conjI impI)
  show "fst (record_usage fault m p c w) = fst (record_usage fault ''gpt-4'' p c w)"
    by (rule record_usage_model_independent)
  show "map cost (usage (snd (record_usage fault m p c w))) =
     map cost (usage (snd (record_usage fault ''gpt-4'' p c w)))"
    by (rule record_usage_model_independent)
  {
    assume "fst (record_usage fault m p c w) = Inr ()"
    from record_usage_row [OF this]
    show "map model (usage (snd (record_usage fault m p c w))) = map model (usage w) @ [m]"
      by auto
  }
  assume fail: "fst (record_usage fault m p c w) = Inl e"
  then show "fault = Some (str e) \<or> float_of_int p = Inl e \<or> float_of_int c = Inl e"
    by (auto simp: record_usage_def split: sum.splits option.splits)
  from fail show same: "snd (record_usage fault m p c w) = w"
    by (rule record_usage_failure)
  show "get_usage_summary f (snd (record_usage fault m p c w)) = get_usage_summary f w"
    by (simp only: same)
qed

theorem record_usage_any_model_witness:
  "fst (record_usage None ''gpt-3.5-turbo'' 12 30 (init_db None)) = Inr () \<and>
   map model (usage (snd (record_usage None ''gpt-3.5-turbo'' 12 30 (init_db None)))) =
     [''gpt-3.5-turbo''] \<and>
   fst (record_usage (Some ''disk full'') ''gpt-3.5-turbo'' 12 30 (init_db None)) =
     Inl (SqliteError ''disk full'') \<and>
   snd (record_usage (Some ''disk full'') ''gpt-3.5-turbo'' 12 30 (init_db None)) = init_db None"
proof -
  have ok: "fst (record_usage None ''gpt-3.5-turbo'' 12 30 (init_db None)) = Inr ()"
    by (simp add: record_usage_success [OF float_of_int_small])
  have bad: "fst (record_usage (Some ''disk full'') ''gpt-3.5-turbo'' 12 30 (init_db None)) =
      Inl (SqliteError ''disk full'')"
    by (simp add: record_usage_def float_of_int_small)
  from record_usage_any_model [of None "''gpt-3.5-turbo''" 12 30 "init_db None"] ok
  have one: "map model (usage (snd (record_usage None ''gpt-3.5-turbo'' 12 30 (init_db None)))) =
      [''gpt-3.5-turbo'']"
    by (simp add: init_db_def)
  from record_usage_any_model [of "Some ''disk full''" "''gpt-3.5-turbo''" 12 30 "init_db None"
      "SqliteError ''disk full''"] bad
  have two: "snd (record_usage (Some ''disk full'') ''gpt-3.5-turbo'' 12 30 (init_db None)) =
      init_db None"
    by blast
  from ok one bad two show ?thesis
    by (simp only:)
qed

section \<open>One turn of the conversation\<close>

text \<open>
  Claim C1 (failure of the completion API). When no database call of the turn fails and the
  API call raises an exception \<open>e\<close>, \<^verbatim>\<open>chat\<close> does not raise: it answers
  \<^verbatim>\<open>"Error: " + str(e)\<close>, that exact string is stored as the \<^verbatim>\<open>assistant\<close> message, so
  a window of size 1 read next returns it; the error is printed and no usage row is written.
  The witness is the run with detail \<^verbatim>\<open>timeout\<close> and input \<^verbatim>\<open>hi\<close> (the window size is
  the 10 that \<^verbatim>\<open>chat\<close> passes).
\<close>

theorem llm_failure_becomes_reply:
  assumes "user_insert_fault env = None" and "window_fault env = None"
    and "reply_insert_fault env = None"
    and "\<And>msgs. completion env msgs = Inl e"
  shows "fst (chat env data w) = Inr (''Error: '' @ str e) \<and>
         fst (get_conversation_messages None 1 (snd (chat env data w))) =
           Inr [\<lparr>role = ''assistant'', content = ''Error: '' @ str e\<rparr>] \<and>
         Printed (''Error generating chat completion: '' @ str e)
           \<in> set (events (snd (chat env data w))) \<and>
         usage (snd (chat env data w)) = usage w"
proof -
  define w1 where "w1 = snd (add_message_to_db None ''user''
                       (case data ''user_input'' of None \<Rightarrow> '''' | Some v \<Rightarrow> v) w)"
  define g where "g = generate_chat_completion (completion env) (usage_insert_fault env)
                  (projr (fst (get_conversation_messages None 10 w1)))
                  (snd (get_conversation_messages None 10 w1))"
  have c: "chat env data w =
      (Inr (fst g), snd (add_message_to_db None ''assistant'' (fst g) (snd g)))"
    unfolding g_def w1_def using assms(1-3) by (rule chat_no_storage_fault)
  have g: "fst g = ''Error: '' @ str e"
    "Printed (''Error generating chat completion: '' @ str e) \<in> set (events (snd g))"
    "usage (snd g) = usage (snd (get_conversation_messages None 10 w1))"
    unfolding g_def by (simp_all add: generate_when_api_raises [OF assms(4)])
  have "usage (snd g) = usage w"
    by (simp add: g(3) window_usage w1_def add_message_usage)
  then show ?thesis
    using g(1,2) by (simp add: c window_one_after_append add_message_usage)
      (simp add: add_message_success)
qed

theorem llm_failure_becomes_reply_witness:
  "fst (chat (no_faults (api_raises ''timeout'')) [''user_input'' \<mapsto> ''hi''] (init_db None)) =
     Inr ''Error: timeout'' \<and>
   fst (get_conversation_messages None 1
         (snd (chat (no_faults (api_raises ''timeout'')) [''user_input'' \<mapsto> ''hi'']
                (init_db None)))) =
     Inr [\<lparr>role = ''assistant'', content = ''Error: timeout''\<rparr>]"
  using llm_failure_becomes_reply [of "no_faults (api_raises ''timeout'')"
      "OpenAIError ''timeout''" "[''user_input'' \<mapsto> ''hi'']" "init_db None"]
  by (simp add: no_faults_def api_raises_def)

text \<open>
  Claim C9 (failure of the first append). When the \<^verbatim>\<open>INSERT\<close> of the user message raises,
  the exception leaves \<^verbatim>\<open>chat\<close> at once: the world is the one before the call, so no
  window read and no API request has been issued (the event log is unchanged), no assistant
  message is stored, and both tables are as they were.
\<close>

theorem user_append_failure_propagates:
  assumes "user_insert_fault env = Some d"
  shows "chat env data w = (Inl (SqliteError d), w) \<and>
         messages (snd (chat env data w)) = messages w \<and>
         usage (snd (chat env data w)) = usage w \<and>
         events (snd (chat env data w)) = events w"
  using assms by (simp add: chat_def add_message_to_db_def)

theorem user_append_failure_propagates_witness:
  "chat \<lparr>user_insert_fault = Some ''database is locked'', window_fault = None,
         completion = api_answers \<lparr>reply = ''Hello!'', resp_prompt_tokens = 9,
                                    resp_completion_tokens = 3\<rparr>,
         usage_insert_fault = None, reply_insert_fault = None\<rparr>
     [''user_input'' \<mapsto> ''hi''] (init_db None) =
   (Inl (SqliteError ''database is locked''), init_db None)"
  using user_append_failure_propagates [of
      "\<lparr>user_insert_fault = Some ''database is locked'', window_fault = None,
         completion = api_answers \<lparr>reply = ''Hello!'', resp_prompt_tokens = 9,
                                    resp_completion_tokens = 3\<rparr>,
         usage_insert_fault = None, reply_insert_fault = None\<rparr>"
      "''database is locked''" "[''user_input'' \<mapsto> ''hi'']" "init_db None"]
  by simp




text \<open>
  Claim C10 (missing \<^verbatim>\<open>user_input\<close>). When the JSON body has no \<^verbatim>\<open>user_input\<close> key,
  \<^verbatim>\<open>chat\<close> behaves exactly as on the body with \<^verbatim>\<open>user_input\<close> set to the empty string:
  a \<^verbatim>\<open>user\<close> row with empty content is appended (whenever that insert succeeds), and when
  no database call fails the turn runs in full: the window is read, the request sent to the
  API ends with the empty user message, and the answer is stored as the \<^verbatim>\<open>assistant\<close>
  message after it.
\<close>

theorem missing_user_input_is_empty_string:
  assumes "data ''user_input'' = None"
  shows "chat env data w = chat env (data(''user_input'' \<mapsto> '''')) w \<and>
         (user_insert_fault env = None \<longrightarrow>
            take (Suc (length (messages w))) (messages (snd (chat env data w))) =
              messages w @
              [\<lparr>msg_id = next_rowid (map msg_id (messages w)), msg_role = ''user'',
                msg_content = ''''\<rparr>]) \<and>
         (user_insert_fault env = None \<and> window_fault env = None \<and>
          reply_insert_fault env = None \<longrightarrow>
            (\<exists>answer older rest.
               fst (chat env data w) = Inr answer \<and>
               map row_dict (messages (snd (chat env data w))) =
                 map row_dict (messages w) @
                 [\<lparr>role = ''user'', content = ''''\<rparr>,
                  \<lparr>role = ''assistant'', content = answer\<rparr>] \<and>
               events (snd (chat env data w)) =
                 events w @ Window_Read 10 #
                 Completion_Request (older @ [\<lparr>role = ''user'', content = ''''\<rparr>]) # rest))"
proof (intro conjI impI)
  show "chat env data w = chat env (data(''user_input'' \<mapsto> '''')) w"
    using assms by (simp add: chat_def)
next
  assume "user_insert_fault env = None"
  from chat_keeps_user_message [OF this, of data w] assms
  show "take (Suc (length (messages w))) (messages (snd (chat env data w))) =
      messages w @
      [\<lparr>msg_id = next_rowid (map msg_id (messages w)), msg_role = ''user'',
        msg_content = ''''\<rparr>]"
    by auto
next
  assume ok: "user_insert_fault env = None \<and> window_fault env = None \<and>
    reply_insert_fault env = None"
  define w1 where "w1 = snd (add_message_to_db None ''user''
                       (case data ''user_input'' of None \<Rightarrow> '''' | Some v \<Rightarrow> v) w)"
  define g where "g = generate_chat_completion (completion env) (usage_insert_fault env)
                  (projr (fst (get_conversation_messages None 10 w1)))
                  (snd (get_conversation_messages None 10 w1))"
  have c: "chat env data w =
      (Inr (fst g), snd (add_message_to_db None ''assistant'' (fst g) (snd g)))"
    unfolding g_def w1_def using ok by (intro chat_no_storage_fault) simp_all
  have w1: "w1 = snd (add_message_to_db None ''user'' '''' w)"
    using assms by (simp add: w1_def)
  obtain older where older: "fst (get_conversation_messages None 10 w1) =
      Inr (older @ [\<lparr>role = ''user'', content = ''''\<rparr>])"
    unfolding w1 using window_after_append by blast
  obtain rest where rest: "events (snd g) =
      events (snd (get_conversation_messages None 10 w1)) @
      Completion_Request (older @ [\<lparr>role = ''user'', content = ''''\<rparr>]) # rest"
    unfolding g_def older using generate_events [of "completion env" "usage_insert_fault env"
        "older @ [\<lparr>role = ''user'', content = ''''\<rparr>]"
        "snd (get_conversation_messages None 10 w1)"]
    by auto
  have ev: "events (snd (chat env data w)) =
      events w @ Window_Read 10 #
      Completion_Request (older @ [\<lparr>role = ''user'', content = ''''\<rparr>]) # rest"
    by (simp add: c add_message_success rest window_other_tables) (simp add: w1 add_message_success)
  have "messages (snd g) = messages w1"
    by (simp add: g_def generate_messages window_other_tables)
  then have ms: "map row_dict (messages (snd (chat env data w))) =
      map row_dict (messages w) @
      [\<lparr>role = ''user'', content = ''''\<rparr>, \<lparr>role = ''assistant'', content = fst g\<rparr>]"
    by (simp add: c add_message_success w1 row_dict_def)
  from c ms ev
  show "\<exists>answer older rest.
       fst (chat env data w) = Inr answer \<and>
       map row_dict (messages (snd (chat env data w))) =
         map row_dict (messages w) @
         [\<lparr>role = ''user'', content = ''''\<rparr>, \<lparr>role = ''assistant'', content = answer\<rparr>] \<and>
       events (snd (chat env data w)) =
         events w @ Window_Read 10 #
         Completion_Request (older @ [\<lparr>role = ''user'', content = ''''\<rparr>]) # rest"
    by (metis fst_conv)
qed

theorem missing_user_input_is_empty_string_witness:
  "Map.empty ''user_input'' = (None :: string option) \<and>
   fst (chat (no_faults (api_answers \<lparr>reply = ''Hello!'', resp_prompt_tokens = 9,
                                       resp_completion_tokens = 3\<rparr>))
          Map.empty (init_db None)) = Inr ''Hello!'' \<and>
   messages (snd (chat (no_faults (api_answers \<lparr>reply = ''Hello!'', resp_prompt_tokens = 9,
                                                 resp_completion_tokens = 3\<rparr>))
                    Map.empty (init_db None))) =
     [\<lparr>msg_id = 1, msg_role = ''user'', msg_content = ''''\<rparr>,
      \<lparr>msg_id = 2, msg_role = ''assistant'', msg_content = ''Hello!''\<rparr>] \<and>
   events (snd (chat (no_faults (api_answers \<lparr>reply = ''Hello!'', resp_prompt_tokens = 9,
                                               resp_completion_tokens = 3\<rparr>))
                  Map.empty (init_db None))) =
     [Window_Read 10, Completion_Request [\<lparr>role = ''user'', content = ''''\<rparr>]]"
proof -
  let ?env = "no_faults (api_answers \<lparr>reply = ''Hello!'', resp_prompt_tokens = 9,
                                      resp_completion_tokens = 3\<rparr>)"
  have absent: "Map.empty ''user_input'' = (None :: string option)"
    by simp
  have run: "chat ?env [''user_input'' \<mapsto> ''''] (init_db None) =
   (Inr ''Hello!'',
    \<lparr>messages = [\<lparr>msg_id = 1, msg_role = ''user'', msg_content = ''''\<rparr>,
                 \<lparr>msg_id = 2, msg_role = ''assistant'', msg_content = ''Hello!''\<rparr>],
     usage = [\<lparr>usage_id = 1, model = ''gpt-4'', prompt_tokens = 9, completion_tokens = 3,
               total_tokens = 12,
               cost = fadd (fmul (fdiv 9 1000) GPT4_PROMPT_COST_PER_1K)
                           (fmul (fdiv 3 1000) GPT4_COMPLETION_COST_PER_1K)\<rparr>],
     events = [Window_Read 10, Completion_Request [\<lparr>role = ''user'', content = ''''\<rparr>]]\<rparr>)"
    by (simp add: chat_def add_message_to_db_def get_conversation_messages_def
      generate_chat_completion_def record_usage_def float_of_int_tokens api_answers_def
      no_faults_def init_db_def next_rowid_def order_by_id_desc_def sql_limit_def row_dict_def
      Let_def)
  from missing_user_input_is_empty_string [OF absent, of ?env "init_db None"]
  have "chat ?env Map.empty (init_db None) = chat ?env [''user_input'' \<mapsto> ''''] (init_db None)"
    by blast
  then show ?thesis
    by (simp add: run)
qed

end
